theory Spec2Isabelle
  imports Main "HOL-Library.Log_Nat"
begin

section \<open>The float64 type of the amounts\<close>

text \<open>
  \<^verbatim>\<open>Price\<close> and \<^verbatim>\<open>TotalAmount\<close> are Go \<^verbatim>\<open>float64\<close> values (IEEE 754 binary64). A value is
  a NaN, an infinity with its sign, or a finite number \<open>(-1)\<^sup>s \<sqdot> m \<sqdot> 2\<^sup>e\<close> kept in its
  unique machine form: \<open>0 \<le> m < 2\<^sup>5\<^sup>3\<close>, \<open>-1074 \<le> e \<le> 971\<close>, and \<open>2\<^sup>5\<^sup>2 \<le> m\<close> unless
  \<open>e = -1074\<close> (subnormal numbers and the two zeros). The sign is \<open>True\<close> for negative.
  The operations compute the exact result as a fraction of integers and round it once, to
  nearest, ties to even, as the hardware does.
\<close>

datatype float64 = NaN | Inf bool | Finite bool int int

definition f64_zero :: float64 where
  "f64_zero = Finite False 0 (- 1074)"

text \<open>The fraction \<open>n / d\<close> rounded to an integer, ties to the even neighbour.\<close>

definition rne :: "int \<Rightarrow> int \<Rightarrow> int" where
  "rne n d = (let q = n div d; r = n mod d
              in if d < 2 * r \<or> (2 * r = d \<and> odd q) then q + 1 else q)"

text \<open>The fraction \<open>(n / d) / 2\<^sup>e\<close>, kept as a numerator and a denominator.\<close>

definition scale2 :: "int \<Rightarrow> int \<Rightarrow> int \<Rightarrow> int \<times> int" where
  "scale2 n d e = (if 0 \<le> e then (n, d * 2 ^ nat e) else (n * 2 ^ nat (- e), d))"

text \<open>
  Rounding of the exact magnitude \<open>n / d\<close> (\<open>0 \<le> n\<close>, \<open>0 < d\<close>) with sign \<open>ng\<close>: the exponent
  is the one that puts the significand in \<open>[2\<^sup>5\<^sup>2, 2\<^sup>5\<^sup>3)\<close>, but not below \<open>-1074\<close>; a
  significand that rounds up to \<open>2\<^sup>5\<^sup>3\<close> moves to the next exponent; an exponent above
  \<open>971\<close> is an overflow to infinity.
\<close>

definition round_f64 :: "bool \<Rightarrow> int \<Rightarrow> int \<Rightarrow> float64" where
  "round_f64 ng n d =
     (if n = 0 then Finite ng 0 (- 1074) else
      let e0 = bitlen n - bitlen d - 53;
          e1 = (case scale2 n d e0 of (n0, d0) \<Rightarrow> if 2 ^ 53 \<le> n0 div d0 then e0 + 1 else e0);
          e = max e1 (- 1074);
          m = (case scale2 n d e of (n1, d1) \<Rightarrow> rne n1 d1);
          m' = (if m = 2 ^ 53 then 2 ^ 52 else m);
          e' = (if m = 2 ^ 53 then e + 1 else e)
      in if 971 < e' then Inf ng else Finite ng m' (if m' = 0 then - 1074 else e'))"

text \<open>
  A decimal literal of the source, \<open>n / 10\<^sup>k\<close>: Go converts the exact constant to the
  nearest \<^verbatim>\<open>float64\<close>. So \<^verbatim>\<open>829.17\<close> is \<open>f64_of_decimal 82917 2\<close>.
\<close>

definition f64_of_decimal :: "int \<Rightarrow> nat \<Rightarrow> float64" where
  "f64_of_decimal n k = round_f64 (n < 0) \<bar>n\<bar> (10 ^ k)"

text \<open>The conversion \<^verbatim>\<open>float64(count)\<close> of an integer.\<close>

definition f64_of_int :: "int \<Rightarrow> float64" where
  "f64_of_int n = round_f64 (n < 0) \<bar>n\<bar> 1"

definition signed :: "bool \<Rightarrow> int \<Rightarrow> int" where
  "signed ng m = (if ng then - m else m)"

text \<open>
  Addition. An exact sum of zero is \<open>+0\<close>, except that \<open>-0 + -0 = -0\<close>; the infinities of
  opposite sign add to NaN.
\<close>

fun f64_add :: "float64 \<Rightarrow> float64 \<Rightarrow> float64" where
  "f64_add NaN _ = NaN"
| "f64_add _ NaN = NaN"
| "f64_add (Inf s) (Inf t) = (if s = t then Inf s else NaN)"
| "f64_add (Inf s) (Finite _ _ _) = Inf s"
| "f64_add (Finite _ _ _) (Inf t) = Inf t"
| "f64_add (Finite s1 m1 e1) (Finite s2 m2 e2) =
     (let e = min e1 e2;
          x = signed s1 m1 * 2 ^ nat (e1 - e) + signed s2 m2 * 2 ^ nat (e2 - e)
      in if x = 0 then Finite (s1 \<and> s2) 0 (- 1074)
         else case scale2 \<bar>x\<bar> 1 (- e) of (n, d) \<Rightarrow> round_f64 (x < 0) n d)"

text \<open>Multiplication. The sign is the exclusive or of the signs; zero times infinity is NaN.\<close>

fun f64_mul :: "float64 \<Rightarrow> float64 \<Rightarrow> float64" where
  "f64_mul NaN _ = NaN"
| "f64_mul _ NaN = NaN"
| "f64_mul (Inf s) (Inf t) = Inf (s \<noteq> t)"
| "f64_mul (Inf s) (Finite t m e) = (if m = 0 then NaN else Inf (s \<noteq> t))"
| "f64_mul (Finite s m e) (Inf t) = (if m = 0 then NaN else Inf (s \<noteq> t))"
| "f64_mul (Finite s1 m1 e1) (Finite s2 m2 e2) =
     (case scale2 (m1 * m2) 1 (- (e1 + e2)) of (n, d) \<Rightarrow> round_f64 (s1 \<noteq> s2) n d)"

text \<open>
  The fused multiplication and addition \<open>x * y + z\<close>: the exact result rounded once. An
  infinite product with an infinity of the opposite sign gives NaN.
\<close>

definition fma_inf :: "bool \<Rightarrow> float64 \<Rightarrow> float64" where
  "fma_inf ng z =
     (case z of NaN \<Rightarrow> NaN | Inf u \<Rightarrow> if u = ng then Inf ng else NaN | Finite _ _ _ \<Rightarrow> Inf ng)"

fun f64_fma :: "float64 \<Rightarrow> float64 \<Rightarrow> float64 \<Rightarrow> float64" where
  "f64_fma NaN _ _ = NaN"
| "f64_fma _ NaN _ = NaN"
| "f64_fma _ _ NaN = NaN"
| "f64_fma (Inf s) (Inf t) z = fma_inf (s \<noteq> t) z"
| "f64_fma (Inf s) (Finite t m e) z = (if m = 0 then NaN else fma_inf (s \<noteq> t) z)"
| "f64_fma (Finite s m e) (Inf t) z = (if m = 0 then NaN else fma_inf (s \<noteq> t) z)"
| "f64_fma (Finite _ _ _) (Finite _ _ _) (Inf u) = Inf u"
| "f64_fma (Finite s1 m1 e1) (Finite s2 m2 e2) (Finite s3 m3 e3) =
     (let e = min (e1 + e2) e3;
          x = signed (s1 \<noteq> s2) (m1 * m2) * 2 ^ nat (e1 + e2 - e) + signed s3 m3 * 2 ^ nat (e3 - e)
      in if x = 0 then Finite ((s1 \<noteq> s2) \<and> s3) 0 (- 1074)
         else case scale2 \<bar>x\<bar> 1 (- e) of (n, d) \<Rightarrow> round_f64 (x < 0) n d)"

section \<open>Library functions on strings\<close>

text \<open>
  A Go string is a sequence of bytes; \<^typ>\<open>string\<close> is a list of 8-bit characters.

  \<^verbatim>\<open>bufio.Reader.ReadString('\n')\<close> on the bytes of standard input not yet consumed: the
  line up to and including the first newline, or all the remaining bytes when there is no
  newline (the error is dropped by the caller); at the end of input that is the empty
  string, again and again.
\<close>

definition ReadString :: "string \<Rightarrow> string \<times> string" where
  "ReadString inp =
     (case dropWhile (\<lambda>c. c \<noteq> CHR 0x0A) inp of
        [] \<Rightarrow> (inp, [])
      | nl # rest \<Rightarrow> (takeWhile (\<lambda>c. c \<noteq> CHR 0x0A) inp @ [nl], rest))"

text \<open>
  The UTF-8 encodings of the code points for which \<^verbatim>\<open>unicode.IsSpace\<close> holds: tab, line
  feed, vertical tab, form feed, carriage return, space, U+0085, U+00A0, U+1680,
  U+2000 to U+200A, U+2028, U+2029, U+202F, U+205F and U+3000.
\<close>

definition space_runes :: "string list" where
  "space_runes =
     [[CHR 0x09], [CHR 0x0A], [CHR 0x0B], [CHR 0x0C], [CHR 0x0D], [CHR 0x20],
      [CHR 0xC2, CHR 0x85], [CHR 0xC2, CHR 0xA0],
      [CHR 0xE1, CHR 0x9A, CHR 0x80],
      [CHR 0xE2, CHR 0x80, CHR 0x80], [CHR 0xE2, CHR 0x80, CHR 0x81],
      [CHR 0xE2, CHR 0x80, CHR 0x82], [CHR 0xE2, CHR 0x80, CHR 0x83],
      [CHR 0xE2, CHR 0x80, CHR 0x84], [CHR 0xE2, CHR 0x80, CHR 0x85],
      [CHR 0xE2, CHR 0x80, CHR 0x86], [CHR 0xE2, CHR 0x80, CHR 0x87],
      [CHR 0xE2, CHR 0x80, CHR 0x88], [CHR 0xE2, CHR 0x80, CHR 0x89],
      [CHR 0xE2, CHR 0x80, CHR 0x8A],
      [CHR 0xE2, CHR 0x80, CHR 0xA8], [CHR 0xE2, CHR 0x80, CHR 0xA9],
      [CHR 0xE2, CHR 0x80, CHR 0xAF], [CHR 0xE2, CHR 0x81, CHR 0x9F],
      [CHR 0xE3, CHR 0x80, CHR 0x80]]"

text \<open>The white-space rune the string starts with, and the one it ends with, if any.\<close>

definition leading_space :: "string \<Rightarrow> string option" where
  "leading_space s = find (\<lambda>w. take (length w) s = w) space_runes"

definition trailing_space :: "string \<Rightarrow> string option" where
  "trailing_space s =
     find (\<lambda>w. length w \<le> length s \<and> drop (length s - length w) s = w) space_runes"

function TrimLeftSpace :: "string \<Rightarrow> string" where
  "TrimLeftSpace s =
     (case leading_space s of
        None \<Rightarrow> s
      | Some w \<Rightarrow> TrimLeftSpace (drop (length w) s))"
  by pat_completeness auto
termination
proof (relation "measure length")
  show "wf (measure length)" by simp
next
  fix s w :: string
  assume "leading_space s = Some w"
  then have w: "w \<in> set space_runes" and t: "take (length w) s = w"
    by (auto simp: leading_space_def find_Some_iff)
  from w have "w \<noteq> []"
    by (auto simp: space_runes_def)
  moreover from t have "length (take (length w) s) = length w"
    by simp
  ultimately show "(drop (length w) s, s) \<in> measure length"
    by (cases w) auto
qed

function TrimRightSpace :: "string \<Rightarrow> string" where
  "TrimRightSpace s =
     (case trailing_space s of
        None \<Rightarrow> s
      | Some w \<Rightarrow> TrimRightSpace (take (length s - length w) s))"
  by pat_completeness auto
termination
proof (relation "measure length")
  show "wf (measure length)" by simp
next
  fix s w :: string
  assume "trailing_space s = Some w"
  then have w: "w \<in> set space_runes" and t: "length w \<le> length s"
    by (auto simp: trailing_space_def find_Some_iff)
  from w have "w \<noteq> []"
    by (auto simp: space_runes_def)
  with t show "(take (length s - length w) s, s) \<in> measure length"
    by (cases w) auto
qed

text \<open>\<^verbatim>\<open>strings.TrimSpace\<close>: all leading and all trailing white space removed.\<close>

definition TrimSpace :: "string \<Rightarrow> string" where
  "TrimSpace s = TrimRightSpace (TrimLeftSpace s)"

text \<open>
  \<^verbatim>\<open>strings.ToLower\<close> on the ASCII letters, every other byte kept. Go also maps the
  letters beyond ASCII; none of them becomes one of \<open>d\<close>, \<open>o\<close>, \<open>n\<close>, \<open>e\<close>, so the
  comparison of the result with \<^verbatim>\<open>"done"\<close>, the only use of the function in the program,
  has the same outcome.
\<close>

definition lower_byte :: "char \<Rightarrow> char" where
  "lower_byte c = (let n = (of_char c :: nat) in if 65 \<le> n \<and> n \<le> 90 then char_of (n + 32) else c)"

definition ToLower :: "string \<Rightarrow> string" where
  "ToLower s = map lower_byte s"

section \<open>The documents and the database\<close>

record MenuItem =
  Name :: string
  Price :: float64

record Customer =
  Name :: string
  Phone :: string
  OrderedItems :: "string list"
  TotalAmount :: float64

text \<open>
  The database \<^verbatim>\<open>restaurant\<close> with its two collections, each in its natural (insertion)
  order. The collections hold documents of the two struct types only, and the driver's
  calls reach the server: \<^verbatim>\<open>FindOne\<close> fails only with no matching document, and the
  writes do not fail, so the \<^verbatim>\<open>log.Fatal\<close> exits of the program are not taken.
\<close>

record store =
  customers :: "Customer list"
  menu :: "MenuItem list"

definition empty_store :: store where
  "empty_store = \<lparr>customers = [], menu = []\<rparr>"

text \<open>\<^verbatim>\<open>InsertOne\<close> adds the document at the end of the collection.\<close>

definition InsertOne :: "'a list \<Rightarrow> 'a \<Rightarrow> 'a list" where
  "InsertOne coll doc = coll @ [doc]"

text \<open>
  \<^verbatim>\<open>FindOne\<close> with the filter \<^verbatim>\<open>{"name": n}\<close>: the first document of the collection whose
  name is \<open>n\<close>; \<open>None\<close> is the error \<^verbatim>\<open>ErrNoDocuments\<close>.
\<close>

definition FindOne :: "('a \<Rightarrow> string) \<Rightarrow> 'a list \<Rightarrow> string \<Rightarrow> 'a option" where
  "FindOne key coll n = find (\<lambda>d. key d = n) coll"

text \<open>
  \<^verbatim>\<open>UpdateOne\<close> with the filter \<^verbatim>\<open>{"name": n}\<close>: the update is applied to the first document
  whose name is \<open>n\<close> and to no other; the second component is \<^verbatim>\<open>MatchedCount\<close>.
\<close>

fun UpdateOne :: "('a \<Rightarrow> string) \<Rightarrow> string \<Rightarrow> ('a \<Rightarrow> 'a) \<Rightarrow> 'a list \<Rightarrow> 'a list \<times> nat" where
  "UpdateOne key n upd [] = ([], 0)"
| "UpdateOne key n upd (d # ds) =
     (if key d = n then (upd d # ds, 1)
      else case UpdateOne key n upd ds of (ds', matched) \<Rightarrow> (d # ds', matched))"

section \<open>The program\<close>

text \<open>
  What the program prints, one constructor for each output line of the source, with the
  values that the line shows.
\<close>

datatype event =
    CustomerAdded string
  | MenuItemsAdded
  | MenuHeader
  | MenuLine string float64
  | Prompt
  | ItemNotFound string
  | Ordered string string
  | NoCustomerFound string
  | CustomerNotFound
  | ThankYou string
  | CustomersHeader
  | CustomerLine Customer
  | Welcome

definition AddCustomer :: "string \<Rightarrow> string \<Rightarrow> store \<Rightarrow> store \<times> event list" where
  "AddCustomer name phone s =
     (let customer = \<lparr>Customer.Name = name, Phone = phone, OrderedItems = [],
                      TotalAmount = f64_zero\<rparr>
      in (s\<lparr>customers := InsertOne (customers s) customer\<rparr>, [CustomerAdded name]))"

definition menuItems :: "MenuItem list" where
  "menuItems =
     [\<lparr>MenuItem.Name = ''Pizza'', Price = f64_of_decimal 82917 2\<rparr>,
      \<lparr>MenuItem.Name = ''Burger'', Price = f64_of_decimal 49717 2\<rparr>,
      \<lparr>MenuItem.Name = ''Pasta'', Price = f64_of_decimal 66317 2\<rparr>,
      \<lparr>MenuItem.Name = ''Salad'', Price = f64_of_decimal 41417 2\<rparr>,
      \<lparr>MenuItem.Name = ''Sushi'', Price = f64_of_decimal 107817 2\<rparr>,
      \<lparr>MenuItem.Name = ''Sandwich'', Price = f64_of_decimal 33117 2\<rparr>,
      \<lparr>MenuItem.Name = ''Tacos'', Price = f64_of_decimal 58017 2\<rparr>,
      \<lparr>MenuItem.Name = ''Steak'', Price = f64_of_decimal 132717 2\<rparr>,
      \<lparr>MenuItem.Name = ''Fries'', Price = f64_of_decimal 24817 2\<rparr>,
      \<lparr>MenuItem.Name = ''Ice Cream'', Price = f64_of_decimal 29050 2\<rparr>]"

definition AddMenuItems :: "store \<Rightarrow> store \<times> event list" where
  "AddMenuItems s = (s\<lparr>menu := foldl InsertOne (menu s) menuItems\<rparr>, [MenuItemsAdded])"

text \<open>
  \<^verbatim>\<open>ShowMenu\<close>: the header, and then the loop over the cursor, which gives the documents
  of the menu in the order of the collection and prints a line for each.
\<close>

fun menu_cursor :: "MenuItem list \<Rightarrow> event list" where
  "menu_cursor [] = []"
| "menu_cursor (menuItem # cursor) =
     MenuLine (MenuItem.Name menuItem) (Price menuItem) # menu_cursor cursor"

definition ShowMenu :: "store \<Rightarrow> event list" where
  "ShowMenu s = MenuHeader # menu_cursor (menu s)"

definition OrderItem :: "string \<Rightarrow> string \<Rightarrow> store \<Rightarrow> store \<times> event list" where
  "OrderItem customerName itemName s =
     (case FindOne MenuItem.Name (menu s) itemName of
        None \<Rightarrow> (s, [ItemNotFound itemName])
      | Some menuItem \<Rightarrow>
          (case UpdateOne Customer.Name customerName
                  (\<lambda>c. c\<lparr>OrderedItems := OrderedItems c @ [itemName]\<rparr>) (customers s) of
             (cs, matched) \<Rightarrow>
               (s\<lparr>customers := cs\<rparr>,
                [if 0 < matched then Ordered customerName itemName
                 else NoCustomerFound customerName])))"

text \<open>
  The first loop of \<^verbatim>\<open>CalculateAndStoreTotal\<close>: \<^verbatim>\<open>itemCounts[itemName]++\<close> for each ordered
  item, a key that is not in the map reading as 0. The counts are far below \<open>2\<^sup>6\<^sup>3\<close> (a
  document holds less than 16 MB), so the \<^verbatim>\<open>int\<close> of the source does not wrap.
\<close>

definition count_of :: "(string \<rightharpoonup> int) \<Rightarrow> string \<Rightarrow> int" where
  "count_of itemCounts itemName = (case itemCounts itemName of None \<Rightarrow> 0 | Some c \<Rightarrow> c)"

fun countItems :: "string list \<Rightarrow> (string \<rightharpoonup> int) \<Rightarrow> (string \<rightharpoonup> int)" where
  "countItems [] itemCounts = itemCounts"
| "countItems (itemName # rest) itemCounts =
     countItems rest (itemCounts(itemName \<mapsto> count_of itemCounts itemName + 1))"

text \<open>
  The second loop, \<^verbatim>\<open>for itemName, count := range itemCounts\<close>. Go does not fix the order
  in which \<^verbatim>\<open>range\<close> visits the keys of a map, and changes it from one loop to the next:
  the order of the visit is the argument \<open>ks\<close>, any list of the keys of the map without
  repetition (\<open>range_order\<close>).

  In \<^verbatim>\<open>totalAmount += menuItem.Price * float64(count)\<close> Go lets the compiler either round
  the product and then round the sum, or fuse the two operations into one that rounds
  once (the compilers for arm64, ppc64le, s390x and riscv64 do, the one for amd64 does
  not). Which of the two the build does is the argument \<open>fused\<close>.
\<close>

definition range_order :: "(string \<rightharpoonup> int) \<Rightarrow> string list \<Rightarrow> bool" where
  "range_order itemCounts ks = (distinct ks \<and> set ks = dom itemCounts)"

fun sumTotal ::
  "bool \<Rightarrow> MenuItem list \<Rightarrow> (string \<rightharpoonup> int) \<Rightarrow> string list \<Rightarrow> float64 \<Rightarrow> float64"
where
  "sumTotal fused menuCollection itemCounts [] totalAmount = totalAmount"
| "sumTotal fused menuCollection itemCounts (itemName # ks) totalAmount =
     (case FindOne MenuItem.Name menuCollection itemName of
        None \<Rightarrow> sumTotal fused menuCollection itemCounts ks totalAmount
      | Some menuItem \<Rightarrow>
          sumTotal fused menuCollection itemCounts ks
            (if fused
             then f64_fma (Price menuItem) (f64_of_int (count_of itemCounts itemName)) totalAmount
             else f64_add totalAmount
                    (f64_mul (Price menuItem) (f64_of_int (count_of itemCounts itemName)))))"

definition CalculateAndStoreTotal ::
  "bool \<Rightarrow> string list \<Rightarrow> string \<Rightarrow> store \<Rightarrow> store \<times> event list"
where
  "CalculateAndStoreTotal fused ks customerName s =
     (case FindOne Customer.Name (customers s) customerName of
        None \<Rightarrow> (s, [CustomerNotFound])
      | Some customer \<Rightarrow>
          (let itemCounts = countItems (OrderedItems customer) Map.empty;
               totalAmount = sumTotal fused (menu s) itemCounts ks f64_zero
           in (s\<lparr>customers :=
                    fst (UpdateOne Customer.Name customerName
                           (\<lambda>c. c\<lparr>TotalAmount := totalAmount\<rparr>) (customers s))\<rparr>,
               [ThankYou customerName])))"

text \<open>
  \<^verbatim>\<open>PlaceOrder\<close>. The state of the loop is the store, the bytes of standard input not
  yet read and the lines printed so far; the loop is left by \<^verbatim>\<open>break\<close> with the state it
  has then. The loop may run forever (at the end of the input every read gives the empty
  line, which is not \<^verbatim>\<open>done\<close>): \<open>None\<close> is a run that does not return. After the loop
  comes the call of \<^verbatim>\<open>CalculateAndStoreTotal\<close>.
\<close>

partial_function (option) PlaceOrder_loop ::
  "string \<Rightarrow> store \<times> string \<times> event list \<Rightarrow> (store \<times> string \<times> event list) option"
where
  "PlaceOrder_loop customerName st =
     (case st of (s, inp, out) \<Rightarrow>
        (case ReadString inp of (line, rest) \<Rightarrow>
           (let shown = out @ ShowMenu s @ [Prompt];
                itemName = TrimSpace line
            in if ToLower itemName = ''done''
               then Some (s, rest, shown)
               else (case OrderItem customerName itemName s of
                       (s', evs) \<Rightarrow> PlaceOrder_loop customerName (s', rest, shown @ evs)))))"

definition PlaceOrder ::
  "bool \<Rightarrow> string list \<Rightarrow> string \<Rightarrow> store \<times> string \<times> event list \<Rightarrow>
   (store \<times> string \<times> event list) option"
where
  "PlaceOrder fused ks customerName st =
     (case PlaceOrder_loop customerName st of
        None \<Rightarrow> None
      | Some (s, rest, out) \<Rightarrow>
          (case CalculateAndStoreTotal fused ks customerName s of
             (s', evs) \<Rightarrow> Some (s', rest, out @ evs)))"

definition GetCustomers :: "store \<Rightarrow> event list" where
  "GetCustomers s = CustomersHeader # map CustomerLine (customers s)"

text \<open>
  \<^verbatim>\<open>main\<close>, after the connection: the menu is seeded, the customer registered, the
  orders taken from standard input, and the customers listed.
\<close>

definition session ::
  "bool \<Rightarrow> string list \<Rightarrow> string \<Rightarrow> string \<Rightarrow> store \<times> string \<Rightarrow>
   (store \<times> string \<times> event list) option"
where
  "session fused ks name phone st =
     (case st of (s, inp) \<Rightarrow>
        (case AddMenuItems s of (s1, out1) \<Rightarrow>
           (case AddCustomer name phone s1 of (s2, out2) \<Rightarrow>
              (case PlaceOrder fused ks name (s2, inp, out1 @ out2 @ [Welcome]) of
                 None \<Rightarrow> None
               | Some (s3, rest, out3) \<Rightarrow> Some (s3, rest, out3 @ GetCustomers s3)))))"

definition main ::
  "bool \<Rightarrow> string list \<Rightarrow> store \<times> string \<Rightarrow> (store \<times> string \<times> event list) option"
where
  "main fused ks st = session fused ks ''Gadapa Raghavendra'' ''1234567890'' st"

section \<open>The properties in the words of the specification\<close>

text \<open>
  What an item name brings to a total: the price of the menu record of that name (the
  first one, if there are several) and the number of its occurrences in the ordered
  items, as a \<^verbatim>\<open>float64\<close>; nothing when the menu has no record of that name.
\<close>

definition line_item ::
  "MenuItem list \<Rightarrow> string list \<Rightarrow> string \<Rightarrow> (float64 \<times> float64) option"
where
  "line_item menuCollection items n =
     (case find (\<lambda>menuItem. MenuItem.Name menuItem = n) menuCollection of
        None \<Rightarrow> None
      | Some menuItem \<Rightarrow> Some (Price menuItem, f64_of_int (int (count_list items n))))"

text \<open>
  The sum of the products price times count of a list of such pairs, added from the left
  starting at zero in \<^verbatim>\<open>float64\<close>: each product rounded and then the sum, or the two
  rounded once when they are fused.
\<close>

definition f64_total :: "bool \<Rightarrow> (float64 \<times> float64) list \<Rightarrow> float64" where
  "f64_total fused lines =
     foldl (\<lambda>total (price, count).
              if fused then f64_fma price count total else f64_add total (f64_mul price count))
       f64_zero lines"

text \<open>
  The amount that the format \<^verbatim>\<open>%.2f\<close> shows for a finite \<^verbatim>\<open>float64\<close>, in hundredths: the
  exact value rounded to two decimals, ties to even.
\<close>

definition shown_hundredths :: "float64 \<Rightarrow> int option" where
  "shown_hundredths x =
     (case x of
        Finite ng m e \<Rightarrow> (case scale2 (m * 100) 1 (- e) of (n, d) \<Rightarrow> Some (signed ng (rne n d)))
      | _ \<Rightarrow> None)"

text \<open>A line that is \<^verbatim>\<open>done\<close> up to the case of its four letters.\<close>

definition is_sentinel :: "string \<Rightarrow> bool" where
  "is_sentinel t =
     (case t of
        [a, b, c, d] \<Rightarrow>
          (a = CHR ''d'' \<or> a = CHR ''D'') \<and> (b = CHR ''o'' \<or> b = CHR ''O'') \<and>
          (c = CHR ''n'' \<or> c = CHR ''N'') \<and> (d = CHR ''e'' \<or> d = CHR ''E'')
      | _ \<Rightarrow> False)"

text \<open>
  The lines of the input: a line ends with its newline; what follows the last newline,
  if anything, is a last line without one.
\<close>

fun lines_from :: "string \<Rightarrow> string \<Rightarrow> string list" where
  "lines_from line [] = (if line = [] then [] else [line])"
| "lines_from line (c # cs) =
     (if c = CHR 0x0A then (line @ [c]) # lines_from [] cs else lines_from (line @ [c]) cs)"

definition input_lines :: "string \<Rightarrow> string list" where
  "input_lines inp = lines_from [] inp"

text \<open>
  \<open>t\<close> is \<open>line\<close> with the white space around it trimmed: no white-space rune is at the
  start of \<open>t\<close> or at its end, and \<open>line\<close> is \<open>t\<close> with white-space runes, and nothing
  else, before and after it.
\<close>

definition trims_to :: "string \<Rightarrow> string \<Rightarrow> bool" where
  "trims_to line t =
     (list_all (\<lambda>w. take (length w) t \<noteq> w) space_runes \<and>
      list_all (\<lambda>w. length t < length w \<or> drop (length t - length w) t \<noteq> w) space_runes \<and>
      (\<exists>before after.
         list_all (\<lambda>w. w \<in> set space_runes) before \<and>
         list_all (\<lambda>w. w \<in> set space_runes) after \<and>
         line = concat before @ t @ concat after))"

text \<open>The display of the menu: the header, then a line with name and price for each record of the menu, in order.\<close>

definition menu_display :: "store \<Rightarrow> event list" where
  "menu_display s =
     MenuHeader # map (\<lambda>menuItem. MenuLine (MenuItem.Name menuItem) (Price menuItem)) (menu s)"

text \<open>
  The ordering loop as the specification describes it, on the lines of the input: the
  menu is displayed and the item name asked for, the line is trimmed; when it is the
  sentinel the loop is left and the total computed and stored; otherwise the trimmed line
  goes to \<open>OrderItem\<close> and the loop repeats with the next line. The result is the store
  and what was printed. The sentinel is the only way out of the loop: when the lines end
  without it, there is no result.
\<close>

fun ordering_loop ::
  "bool \<Rightarrow> string list \<Rightarrow> string \<Rightarrow> string list \<Rightarrow> store \<times> event list \<Rightarrow>
   (store \<times> event list) option"
where
  "ordering_loop fused ks customerName [] (s, out) = None"
| "ordering_loop fused ks customerName (line # lines) (s, out) =
     (let shown = out @ menu_display s @ [Prompt]; itemName = TrimSpace line
      in if is_sentinel itemName
         then Some (fst (CalculateAndStoreTotal fused ks customerName s),
                    shown @ snd (CalculateAndStoreTotal fused ks customerName s))
         else ordering_loop fused ks customerName lines
                (fst (OrderItem customerName itemName s),
                 shown @ snd (OrderItem customerName itemName s)))"

definition store_and_output :: "store \<times> string \<times> event list \<Rightarrow> store \<times> event list" where
  "store_and_output r = (case r of (s, rest, out) \<Rightarrow> (s, out))"

text \<open>The lines of the input as the successive reads of the loop give them.\<close>

function read_lines :: "string \<Rightarrow> string list" where
  "read_lines inp =
     (if inp = [] then [] else case ReadString inp of (line, rest) \<Rightarrow> line # read_lines rest)"
  by pat_completeness auto
termination
  apply (relation "measure length")
   apply simp
  apply (auto simp: ReadString_def split: list.splits)
  subgoal for inp
    using length_dropWhile_le [of "\<lambda>c. c \<noteq> CHR 0x0A" inp] by auto
  done

text \<open>The bytes of standard input when the lines are typed, each ended by a newline.\<close>

definition typed_lines :: "string list \<Rightarrow> string" where
  "typed_lines ls = concat (map (\<lambda>l. l @ [CHR 0x0A]) ls)"

text \<open>The customer records of the store that a run returns.\<close>

definition final_customers :: "(store \<times> string \<times> event list) option \<Rightarrow> Customer list option" where
  "final_customers r = map_option (\<lambda>(s, rest, out). customers s) r"

section \<open>Stores and inputs of the examples\<close>

definition pizza_order :: "string list" where
  "pizza_order = [''Pizza'', ''Pizza'', ''Burger'']"

text \<open>
  The store after the menu was seeded, Ana registered and ordered two pizzas and a
  burger, and Bob registered.
\<close>

definition ana :: Customer where
  "ana = \<lparr>Customer.Name = ''Ana'', Phone = ''555'', OrderedItems = pizza_order,
           TotalAmount = f64_zero\<rparr>"

definition bob :: Customer where
  "bob = \<lparr>Customer.Name = ''Bob'', Phone = ''777'', OrderedItems = [], TotalAmount = f64_zero\<rparr>"

definition pizza_store :: store where
  "pizza_store = \<lparr>customers = [ana, bob], menu = menuItems\<rparr>"

text \<open>The store after the menu was seeded and Ana ordered a pizza, a burger and a pasta.\<close>

definition trio :: "string list" where
  "trio = [''Pizza'', ''Burger'', ''Pasta'']"

definition trio_store :: store where
  "trio_store =
     \<lparr>customers = [\<lparr>Customer.Name = ''Ana'', Phone = ''555'', OrderedItems = trio,
                     TotalAmount = f64_zero\<rparr>],
      menu = menuItems\<rparr>"

text \<open>
  A store with two customer records of the same name: the first ordered a burger, the
  later one has a pizza among its ordered items.
\<close>

definition ana_first :: Customer where
  "ana_first = \<lparr>Customer.Name = ''Ana'', Phone = ''555'', OrderedItems = [''Burger''],
                 TotalAmount = f64_zero\<rparr>"

definition ana_later :: Customer where
  "ana_later = \<lparr>Customer.Name = ''Ana'', Phone = ''777'', OrderedItems = [''Pizza''],
                 TotalAmount = f64_zero\<rparr>"

definition twin_store :: store where
  "twin_store = \<lparr>customers = [ana_first, ana_later], menu = menuItems\<rparr>"

text \<open>
  The same, where the later record has no ordered items and a total that is not zero.
\<close>

definition ana_idle :: Customer where
  "ana_idle = \<lparr>Customer.Name = ''Ana'', Phone = ''777'', OrderedItems = [],
                TotalAmount = f64_of_decimal 82917 2\<rparr>"

definition idle_store :: store where
  "idle_store = \<lparr>customers = [ana_first, ana_idle], menu = menuItems\<rparr>"

text \<open>The store after the menu was seeded and a customer registered who ordered a pizza.\<close>

definition ana_store :: store where
  "ana_store =
     \<lparr>customers = [\<lparr>Customer.Name = ''Ana'', Phone = ''555'', OrderedItems = [''Pizza''],
                     TotalAmount = f64_zero\<rparr>],
      menu = menuItems\<rparr>"

section \<open>The float64 operations on known values\<close>

text \<open>
  0.1 + 0.2 is 0.30000000000000004 and not 0.3; an integer above \<open>2\<^sup>5\<^sup>3\<close> that lies half way
  between two \<^verbatim>\<open>float64\<close> values goes to the even one.
\<close>

lemma f64_examples:
  "f64_of_decimal 82917 2 = Finite False 7293456451224207 (- 43)"
  "f64_of_int 1 = Finite False 4503599627370496 (- 52)"
  "f64_of_int 9007199254740993 = Finite False 4503599627370496 1"
  "f64_add (f64_of_decimal 1 1) (f64_of_decimal 2 1) = Finite False 5404319552844596 (- 54)"
  "f64_of_decimal 3 1 = Finite False 5404319552844595 (- 54)"
  "f64_add (Inf False) (Inf True) = NaN"
  by code_simp+

text \<open>
  Fusing changes a total when the product is not exact: a pizza, then three sandwiches.
\<close>

lemma fused_differs:
  "f64_add (f64_of_decimal 82917 2) (f64_mul (f64_of_decimal 33117 2) (f64_of_int 3)) =
     Finite False 8016231414859038 (- 42)"
  "f64_fma (f64_of_decimal 33117 2) (f64_of_int 3) (f64_of_decimal 82917 2) =
     Finite False 8016231414859039 (- 42)"
  by code_simp+

lemma f64_add_commute: "f64_add x y = f64_add y x"
proof (cases x; cases y)
  fix s1 m1 e1 s2 m2 e2
  assume "x = Finite s1 m1 e1" "y = Finite s2 m2 e2"
  then show ?thesis
    by (simp add: Let_def min.commute add.commute conj_commute)
qed auto

section \<open>Trimming\<close>

lemma leading_space_D:
  "leading_space s = Some w \<Longrightarrow> w \<in> set space_runes \<and> s = w @ drop (length w) s"
  by (auto simp: leading_space_def find_Some_iff) (metis append_take_drop_id)

lemma trailing_space_D:
  "trailing_space s = Some w \<Longrightarrow> w \<in> set space_runes \<and> s = take (length s - length w) s @ w"
  by (auto simp: trailing_space_def find_Some_iff) (metis append_take_drop_id)

lemma TrimLeftSpace_leading: "leading_space (TrimLeftSpace s) = None"
  by (induction s rule: TrimLeftSpace.induct) (subst TrimLeftSpace.simps, simp split: option.split)

lemma TrimRightSpace_trailing: "trailing_space (TrimRightSpace s) = None"
  by (induction s rule: TrimRightSpace.induct) (subst TrimRightSpace.simps, simp split: option.split)

lemma TrimLeftSpace_split:
  "\<exists>ws. set ws \<subseteq> set space_runes \<and> s = concat ws @ TrimLeftSpace s"
proof (induction s rule: TrimLeftSpace.induct)
  case (1 s)
  show ?case
  proof (cases "leading_space s")
    case None
    then have "set [] \<subseteq> set space_runes \<and> s = concat [] @ TrimLeftSpace s"
      by simp
    then show ?thesis by blast
  next
    case (Some w)
    from "1.IH" [OF Some] obtain ws
      where ws: "set ws \<subseteq> set space_runes"
        "drop (length w) s = concat ws @ TrimLeftSpace (drop (length w) s)" by blast
    from leading_space_D [OF Some] have w: "w \<in> set space_runes" "s = w @ drop (length w) s"
      by simp_all
    have t: "TrimLeftSpace s = TrimLeftSpace (drop (length w) s)"
      using Some by (subst TrimLeftSpace.simps) simp
    have "s = concat (w # ws) @ TrimLeftSpace s"
      using w(2) ws(2) t by (metis append.assoc concat.simps(2))
    with w(1) ws(1) have "set (w # ws) \<subseteq> set space_runes \<and> s = concat (w # ws) @ TrimLeftSpace s"
      by simp
    then show ?thesis by blast
  qed
qed

lemma TrimRightSpace_split:
  "\<exists>ws. set ws \<subseteq> set space_runes \<and> s = TrimRightSpace s @ concat ws"
proof (induction s rule: TrimRightSpace.induct)
  case (1 s)
  show ?case
  proof (cases "trailing_space s")
    case None
    then have "set [] \<subseteq> set space_runes \<and> s = TrimRightSpace s @ concat []"
      by simp
    then show ?thesis by blast
  next
    case (Some w)
    let ?p = "take (length s - length w) s"
    from "1.IH" [OF Some] obtain ws
      where ws: "set ws \<subseteq> set space_runes" "?p = TrimRightSpace ?p @ concat ws" by blast
    from trailing_space_D [OF Some] have w: "w \<in> set space_runes" "s = ?p @ w"
      by simp_all
    have t: "TrimRightSpace s = TrimRightSpace ?p"
      using Some by (subst TrimRightSpace.simps) simp
    have "s = TrimRightSpace s @ concat (ws @ [w])"
      using w(2) ws(2) t by (metis append.assoc append_Nil2 concat.simps concat_append)
    with w(1) ws(1) have "set (ws @ [w]) \<subseteq> set space_runes \<and> s = TrimRightSpace s @ concat (ws @ [w])"
      by simp
    then show ?thesis by blast
  qed
qed

lemma leading_space_take:
  assumes "leading_space s = None"
  shows "leading_space (take k s) = None"
proof -
  have "take (length w) (take k s) \<noteq> w" if "w \<in> set space_runes" for w
  proof
    assume e: "take (length w) (take k s) = w"
    then have "length (take (length w) (take k s)) = length w" by simp
    then have "length w \<le> k" by simp
    with e have "take (length w) s = w" by (simp add: min_def)
    with assms that show False
      by (auto simp: leading_space_def find_None_iff)
  qed
  then show ?thesis
    by (auto simp: leading_space_def find_None_iff)
qed

lemma TrimRightSpace_leading:
  "leading_space s = None \<Longrightarrow> leading_space (TrimRightSpace s) = None"
proof (induction s rule: TrimRightSpace.induct)
  case (1 s)
  show ?case
  proof (cases "trailing_space s")
    case None
    with "1.prems" show ?thesis by simp
  next
    case (Some w)
    have "leading_space (TrimRightSpace (take (length s - length w) s)) = None"
      using "1.IH" [OF Some] leading_space_take [OF "1.prems"] by simp
    then show ?thesis
      using Some by (subst TrimRightSpace.simps) simp
  qed
qed

text \<open>
  What \<open>TrimSpace\<close> returns has no white space at either end, and the string is what
  \<open>TrimSpace\<close> returns with white space, and nothing else, before and after it.
\<close>

lemma TrimSpace_trimmed:
  "leading_space (TrimSpace s) = None \<and> trailing_space (TrimSpace s) = None \<and>
   (\<exists>before after. set before \<subseteq> set space_runes \<and> set after \<subseteq> set space_runes \<and>
      s = concat before @ TrimSpace s @ concat after)"
proof -
  obtain before where b: "set before \<subseteq> set space_runes" "s = concat before @ TrimLeftSpace s"
    using TrimLeftSpace_split by blast
  obtain after where a: "set after \<subseteq> set space_runes"
    "TrimLeftSpace s = TrimRightSpace (TrimLeftSpace s) @ concat after"
    using TrimRightSpace_split by blast
  have "s = concat before @ TrimSpace s @ concat after"
    using a(2) b(2) by (simp add: TrimSpace_def)
  with a(1) b(1) show ?thesis
    using TrimRightSpace_leading [OF TrimLeftSpace_leading] TrimRightSpace_trailing
    by (auto simp: TrimSpace_def)
qed

lemma TrimSpace_trims_to: "trims_to line (TrimSpace line)"
proof -
  from TrimSpace_trimmed [of line] obtain before after
    where l: "leading_space (TrimSpace line) = None"
      and t: "trailing_space (TrimSpace line) = None"
      and b: "set before \<subseteq> set space_runes" and a: "set after \<subseteq> set space_runes"
      and e: "line = concat before @ TrimSpace line @ concat after"
    by blast
  from l have 1: "list_all (\<lambda>w. take (length w) (TrimSpace line) \<noteq> w) space_runes"
    by (simp add: leading_space_def find_None_iff list_all_iff)
  from t have 2: "list_all (\<lambda>w. length (TrimSpace line) < length w \<or>
      drop (length (TrimSpace line) - length w) (TrimSpace line) \<noteq> w) space_runes"
    by (auto simp: trailing_space_def find_None_iff list_all_iff)
  from a b have "list_all (\<lambda>w. w \<in> set space_runes) before \<and>
      list_all (\<lambda>w. w \<in> set space_runes) after"
    by (auto simp: list_all_iff)
  with e 1 2 show ?thesis
    unfolding trims_to_def by blast
qed

section \<open>The driver's calls\<close>

lemma FindOne_None_iff: "FindOne key coll n = None \<longleftrightarrow> n \<notin> key ` set coll"
  by (auto simp: FindOne_def find_None_iff)

lemma FindOne_first:
  "n \<notin> key ` set pre \<Longrightarrow> key d = n \<Longrightarrow> FindOne key (pre @ d # post) n = Some d"
  by (induction pre) (auto simp: FindOne_def)

lemma FindOne_present:
  assumes "n \<in> key ` set coll"
  obtains d where "FindOne key coll n = Some d"
  using assms FindOne_None_iff [of key coll n] by (cases "FindOne key coll n") auto

lemma UpdateOne_no_match:
  "n \<notin> key ` set coll \<Longrightarrow> UpdateOne key n upd coll = (coll, 0)"
  by (induction coll) auto

lemma UpdateOne_first:
  "n \<notin> key ` set pre \<Longrightarrow> key d = n \<Longrightarrow>
   UpdateOne key n upd (pre @ d # post) = (pre @ upd d # post, 1)"
  by (induction pre) auto

text \<open>A collection with a document of the name splits at the first such document.\<close>

lemma first_match:
  "n \<in> key ` set coll \<Longrightarrow>
   \<exists>pre d post. coll = pre @ d # post \<and> key d = n \<and> n \<notin> key ` set pre"
proof (induction coll)
  case Nil
  then show ?case by simp
next
  case (Cons a coll)
  show ?case
  proof (cases "key a = n")
    case True
    then have "a # coll = [] @ a # coll \<and> key a = n \<and> n \<notin> key ` set []" by simp
    then show ?thesis by blast
  next
    case False
    with Cons.prems have "n \<in> key ` set coll" by auto
    from Cons.IH [OF this] obtain pre d post
      where "coll = pre @ d # post" "key d = n" "n \<notin> key ` set pre" by blast
    with False have "a # coll = (a # pre) @ d # post \<and> key d = n \<and> n \<notin> key ` set (a # pre)"
      by auto
    then show ?thesis by blast
  qed
qed

section \<open>Ordering an item\<close>

text \<open>
  Claim C3. When the item name is the name of no menu record, \<open>OrderItem\<close> returns the
  store as it was, so every customer record (its ordered items and its total among the
  rest) and every menu record is unchanged, and the only line printed is the report that
  the item was not found in the menu.
\<close>

theorem OrderItem_unknown_item:
  "itemName \<notin> MenuItem.Name ` set (menu s) \<Longrightarrow>
   OrderItem customerName itemName s = (s, [ItemNotFound itemName])"
  by (simp add: OrderItem_def FindOne_None_iff [symmetric])

theorem OrderItem_unknown_item_witness:
  "''Waffles'' \<notin> MenuItem.Name ` set (menu ana_store) \<and>
   OrderItem ''Ana'' ''Waffles'' ana_store = (ana_store, [ItemNotFound ''Waffles''])"
proof -
  have h: "''Waffles'' \<notin> MenuItem.Name ` set (menu ana_store)"
    by (simp add: ana_store_def menuItems_def)
  show ?thesis using h OrderItem_unknown_item [OF h, of "''Ana''"] by simp
qed

text \<open>
  Claim C4. When the item name is the name of a menu record and the customer name is the
  name of no customer record, \<open>OrderItem\<close> returns the store as it was, no record
  changed, and the only line printed is the report that no customer of that name was
  found.
\<close>

theorem OrderItem_unknown_customer:
  assumes "itemName \<in> MenuItem.Name ` set (menu s)"
    and "customerName \<notin> Customer.Name ` set (customers s)"
  shows "OrderItem customerName itemName s = (s, [NoCustomerFound customerName])"
proof -
  from assms(1) obtain menuItem where "FindOne MenuItem.Name (menu s) itemName = Some menuItem"
    by (rule FindOne_present)
  with assms(2) show ?thesis
    by (simp add: OrderItem_def UpdateOne_no_match)
qed

theorem OrderItem_unknown_customer_witness:
  "''Pizza'' \<in> MenuItem.Name ` set (menu ana_store) \<and>
   ''Bob'' \<notin> Customer.Name ` set (customers ana_store) \<and>
   OrderItem ''Bob'' ''Pizza'' ana_store = (ana_store, [NoCustomerFound ''Bob''])"
proof -
  have h1: "''Pizza'' \<in> MenuItem.Name ` set (menu ana_store)"
    by (simp add: ana_store_def menuItems_def)
  have h2: "''Bob'' \<notin> Customer.Name ` set (customers ana_store)"
    by (simp add: ana_store_def)
  show ?thesis using h1 h2 OrderItem_unknown_customer [OF h1 h2] by simp
qed

text \<open>
  Claim C7. When the item name is the name of a menu record and the customer name is the
  name of a customer record, the customers split as \<open>pre @ c # post\<close> at the first record
  \<open>c\<close> of that name (the record that the update matches), and \<open>OrderItem\<close> returns the
  store in which \<open>c\<close> has the item name added at the end of its ordered items and nothing
  else is different: the name, phone and total of \<open>c\<close>, the records before and after
  it, and the menu are the same. The line printed is the confirmation of the order.
\<close>

theorem OrderItem_appends:
  assumes "itemName \<in> MenuItem.Name ` set (menu s)"
    and "customerName \<in> Customer.Name ` set (customers s)"
  shows "\<exists>pre c post.
           customers s = pre @ c # post \<and> Customer.Name c = customerName \<and>
           customerName \<notin> Customer.Name ` set pre \<and>
           OrderItem customerName itemName s =
             (s\<lparr>customers := pre @ c\<lparr>OrderedItems := OrderedItems c @ [itemName]\<rparr> # post\<rparr>,
              [Ordered customerName itemName])"
proof -
  from assms(1) obtain menuItem
    where found: "FindOne MenuItem.Name (menu s) itemName = Some menuItem"
    by (rule FindOne_present)
  from first_match [OF assms(2)] obtain pre c post
    where split: "customers s = pre @ c # post" "Customer.Name c = customerName"
      "customerName \<notin> Customer.Name ` set pre" by blast
  have "OrderItem customerName itemName s =
          (s\<lparr>customers := pre @ c\<lparr>OrderedItems := OrderedItems c @ [itemName]\<rparr> # post\<rparr>,
           [Ordered customerName itemName])"
    using found split by (simp add: OrderItem_def UpdateOne_first)
  with split show ?thesis by blast
qed

theorem OrderItem_appends_witness:
  "''Burger'' \<in> MenuItem.Name ` set (menu ana_store) \<and>
   ''Ana'' \<in> Customer.Name ` set (customers ana_store) \<and>
   (\<exists>pre c post.
      customers ana_store = pre @ c # post \<and> Customer.Name c = ''Ana'' \<and>
      ''Ana'' \<notin> Customer.Name ` set pre \<and>
      OrderItem ''Ana'' ''Burger'' ana_store =
        (ana_store\<lparr>customers := pre @ c\<lparr>OrderedItems := OrderedItems c @ [''Burger'']\<rparr> # post\<rparr>,
         [Ordered ''Ana'' ''Burger'']))"
proof -
  have h1: "''Burger'' \<in> MenuItem.Name ` set (menu ana_store)"
    by (simp add: ana_store_def menuItems_def)
  have h2: "''Ana'' \<in> Customer.Name ` set (customers ana_store)"
    by (simp add: ana_store_def)
  show ?thesis using h1 h2 OrderItem_appends [OF h1 h2] by blast
qed

text \<open>
  Claim C10. The menu is looked up before any customer record is touched: when the item
  name is the name of no menu record, then whatever the customers of the store are (also
  when none has the customer name), \<open>OrderItem\<close> leaves them as they are and prints the
  report that the item was not found and nothing else, so nothing about the customer.
\<close>

theorem OrderItem_menu_first:
  assumes "itemName \<notin> MenuItem.Name ` set (menu s)"
  shows "\<forall>cs. OrderItem customerName itemName (s\<lparr>customers := cs\<rparr>) =
              (s\<lparr>customers := cs\<rparr>, [ItemNotFound itemName])"
proof
  fix cs
  from assms have "FindOne MenuItem.Name (menu (s\<lparr>customers := cs\<rparr>)) itemName = None"
    by (simp add: FindOne_None_iff)
  then show "OrderItem customerName itemName (s\<lparr>customers := cs\<rparr>) =
               (s\<lparr>customers := cs\<rparr>, [ItemNotFound itemName])"
    by (simp add: OrderItem_def)
qed

theorem OrderItem_menu_first_witness:
  "''Waffles'' \<notin> MenuItem.Name ` set (menu ana_store) \<and>
   ''Bob'' \<notin> Customer.Name ` set (customers ana_store) \<and>
   OrderItem ''Bob'' ''Waffles'' ana_store = (ana_store, [ItemNotFound ''Waffles'']) \<and>
   OrderItem ''Bob'' ''Waffles'' (ana_store\<lparr>customers := []\<rparr>) =
     (ana_store\<lparr>customers := []\<rparr>, [ItemNotFound ''Waffles''])"
proof -
  have h: "''Waffles'' \<notin> MenuItem.Name ` set (menu ana_store)"
    by (simp add: ana_store_def menuItems_def)
  have c: "''Bob'' \<notin> Customer.Name ` set (customers ana_store)"
    by (simp add: ana_store_def)
  have "OrderItem ''Bob'' ''Waffles'' (ana_store\<lparr>customers := customers ana_store\<rparr>) =
          (ana_store\<lparr>customers := customers ana_store\<rparr>, [ItemNotFound ''Waffles''])"
    using OrderItem_menu_first [OF h, of "''Bob''"] by blast
  moreover have "OrderItem ''Bob'' ''Waffles'' (ana_store\<lparr>customers := []\<rparr>) =
          (ana_store\<lparr>customers := []\<rparr>, [ItemNotFound ''Waffles''])"
    using OrderItem_menu_first [OF h, of "''Bob''"] by blast
  ultimately show ?thesis using h c by simp
qed

section \<open>Seeding the menu\<close>

lemma foldl_InsertOne: "foldl InsertOne coll docs = coll @ docs"
  by (induction docs arbitrary: coll) (simp_all add: InsertOne_def)

text \<open>
  Claim C9. \<open>AddMenuItems\<close> inserts its fixed list of ten different records at the end
  of the menu and looks at nothing that is there: from every store, two calls leave the
  menu with the list added twice, two copies of each seeded record, and the store after
  two calls is not the store after one call.
\<close>

theorem AddMenuItems_twice:
  "fst (AddMenuItems (fst (AddMenuItems s))) = s\<lparr>menu := menu s @ menuItems @ menuItems\<rparr> \<and>
   distinct menuItems \<and> length menuItems = 10 \<and>
   fst (AddMenuItems (fst (AddMenuItems s))) \<noteq> fst (AddMenuItems s)"
proof -
  have two: "fst (AddMenuItems (fst (AddMenuItems s))) = s\<lparr>menu := menu s @ menuItems @ menuItems\<rparr>"
    by (simp add: AddMenuItems_def foldl_InsertOne)
  have one: "fst (AddMenuItems s) = s\<lparr>menu := menu s @ menuItems\<rparr>"
    by (simp add: AddMenuItems_def foldl_InsertOne)
  have names: "distinct (map MenuItem.Name menuItems)"
    by (simp add: menuItems_def)
  then have d: "distinct menuItems"
    by (simp add: distinct_map)
  have l: "length menuItems = 10"
    by (simp add: menuItems_def)
  have "length (menu (s\<lparr>menu := menu s @ menuItems @ menuItems\<rparr>)) \<noteq>
        length (menu (s\<lparr>menu := menu s @ menuItems\<rparr>))"
    using l by simp
  then have "s\<lparr>menu := menu s @ menuItems @ menuItems\<rparr> \<noteq> s\<lparr>menu := menu s @ menuItems\<rparr>"
    by metis
  with one two d l show ?thesis by simp
qed

section \<open>The total of the orders\<close>

lemma count_of_countItems:
  "count_of (countItems items m) n = count_of m n + int (count_list items n)"
  by (induction items arbitrary: m) (auto simp: count_of_def)

lemma count_of_countItems_empty:
  "count_of (countItems items Map.empty) n = int (count_list items n)"
  by (simp add: count_of_countItems) (simp add: count_of_def)

lemma dom_countItems: "dom (countItems items m) = dom m \<union> set items"
  by (induction items arbitrary: m) auto

text \<open>The keys of the map of counts are the different item names of the list.\<close>

lemma range_order_countItems:
  "range_order (countItems items Map.empty) ks \<longleftrightarrow> distinct ks \<and> set ks = set items"
  by (simp add: range_order_def dom_countItems)

lemma sumTotal_foldl:
  "sumTotal fused menuCollection (countItems items Map.empty) ks t =
     foldl (\<lambda>total (price, count).
              if fused then f64_fma price count total else f64_add total (f64_mul price count))
       t (List.map_filter (line_item menuCollection items) ks)"
  by (induction ks arbitrary: t)
    (simp_all add: line_item_def FindOne_def count_of_countItems_empty split: option.split)

lemma CalculateAndStoreTotal_first:
  assumes "customers s = pre @ C # post" and "Customer.Name C \<notin> Customer.Name ` set pre"
  shows "CalculateAndStoreTotal fused ks (Customer.Name C) s =
     (s\<lparr>customers :=
          pre @ C\<lparr>TotalAmount :=
                    f64_total fused (List.map_filter (line_item (menu s) (OrderedItems C)) ks)\<rparr> # post\<rparr>,
      [ThankYou (Customer.Name C)])"
  using assms
  by (simp add: CalculateAndStoreTotal_def FindOne_first UpdateOne_first sumTotal_foldl f64_total_def)

text \<open>The prices of the seeded menu and the sums of the examples, computed.\<close>

lemma menu_lookup:
  "FindOne MenuItem.Name menuItems ''Pizza'' =
     Some \<lparr>MenuItem.Name = ''Pizza'', Price = f64_of_decimal 82917 2\<rparr>"
  "FindOne MenuItem.Name menuItems ''Burger'' =
     Some \<lparr>MenuItem.Name = ''Burger'', Price = f64_of_decimal 49717 2\<rparr>"
  "FindOne MenuItem.Name menuItems ''Pasta'' =
     Some \<lparr>MenuItem.Name = ''Pasta'', Price = f64_of_decimal 66317 2\<rparr>"
  by (simp_all add: FindOne_def menuItems_def)

lemma products:
  "f64_mul (f64_of_decimal 82917 2) (f64_of_int 2) = Finite False 7293456451224207 (- 42)"
  "f64_mul (f64_of_decimal 82917 2) (f64_of_int 1) = Finite False 7293456451224207 (- 43)"
  "f64_mul (f64_of_decimal 49717 2) (f64_of_int 1) = Finite False 8746307135702303 (- 44)"
  "f64_mul (f64_of_decimal 66317 2) (f64_of_int 1) = Finite False 5833305009537679 (- 43)"
  by code_simp+

text \<open>The first addition of a loop, to the zero of the start.\<close>

lemma from_zero_pizza_2:
  "f64_add f64_zero (Finite False 7293456451224207 (- 42)) = Finite False 7293456451224207 (- 42)"
  by code_simp

lemma from_zero_pizza_1:
  "f64_add f64_zero (Finite False 7293456451224207 (- 43)) = Finite False 7293456451224207 (- 43)"
  by code_simp

lemma from_zero_burger_1:
  "f64_add f64_zero (Finite False 8746307135702303 (- 44)) = Finite False 8746307135702303 (- 44)"
  by code_simp

lemma from_zero_pasta_1:
  "f64_add f64_zero (Finite False 5833305009537679 (- 43)) = Finite False 5833305009537679 (- 43)"
  by code_simp

lemma fused_from_zero_pizza_2:
  "f64_fma (f64_of_decimal 82917 2) (f64_of_int 2) f64_zero = Finite False 7293456451224207 (- 42)"
  by code_simp

lemma fused_from_zero_pizza_1:
  "f64_fma (f64_of_decimal 82917 2) (f64_of_int 1) f64_zero = Finite False 7293456451224207 (- 43)"
  by code_simp

lemma fused_from_zero_burger_1:
  "f64_fma (f64_of_decimal 49717 2) (f64_of_int 1) f64_zero = Finite False 8746307135702303 (- 44)"
  by code_simp

lemma fused_from_zero_pasta_1:
  "f64_fma (f64_of_decimal 66317 2) (f64_of_int 1) f64_zero = Finite False 5833305009537679 (- 43)"
  by code_simp

lemmas from_zero =
  from_zero_pizza_2 from_zero_pizza_1 from_zero_burger_1 from_zero_pasta_1
  fused_from_zero_pizza_2 fused_from_zero_pizza_1 fused_from_zero_burger_1 fused_from_zero_pasta_1

text \<open>The additions that follow.\<close>

lemma next_sums:
  "f64_add (Finite False 7293456451224207 (- 42)) (Finite False 8746307135702303 (- 44)) =
     Finite False 4740016617574891 (- 41)"
  "f64_add (Finite False 8746307135702303 (- 44)) (Finite False 7293456451224207 (- 42)) =
     Finite False 4740016617574891 (- 41)"
  "f64_add (Finite False 7293456451224207 (- 43)) (Finite False 8746307135702303 (- 44)) =
     Finite False 5833305009537679 (- 42)"
  "f64_add (Finite False 5833305009537679 (- 42)) (Finite False 5833305009537679 (- 43)) =
     Finite False 8749957514306518 (- 42)"
  "f64_add (Finite False 5833305009537679 (- 43)) (Finite False 7293456451224207 (- 43)) =
     Finite False 6563380730380943 (- 42)"
  "f64_add (Finite False 6563380730380943 (- 42)) (Finite False 8746307135702303 (- 44)) =
     Finite False 8749957514306519 (- 42)"
  by code_simp+

lemma fused_next_sums:
  "f64_fma (f64_of_decimal 49717 2) (f64_of_int 1) (Finite False 7293456451224207 (- 42)) =
     Finite False 4740016617574891 (- 41)"
  "f64_fma (f64_of_decimal 82917 2) (f64_of_int 2) (Finite False 8746307135702303 (- 44)) =
     Finite False 4740016617574891 (- 41)"
  "f64_fma (f64_of_decimal 49717 2) (f64_of_int 1) (Finite False 7293456451224207 (- 43)) =
     Finite False 5833305009537679 (- 42)"
  "f64_fma (f64_of_decimal 66317 2) (f64_of_int 1) (Finite False 5833305009537679 (- 42)) =
     Finite False 8749957514306518 (- 42)"
  "f64_fma (f64_of_decimal 82917 2) (f64_of_int 1) (Finite False 5833305009537679 (- 43)) =
     Finite False 6563380730380943 (- 42)"
  "f64_fma (f64_of_decimal 49717 2) (f64_of_int 1) (Finite False 6563380730380943 (- 42)) =
     Finite False 8749957514306519 (- 42)"
  by code_simp+

lemma pizza_order_literals:
  "f64_add (f64_mul (f64_of_decimal 82917 2) (f64_of_int 2)) (f64_of_decimal 49717 2) =
     Finite False 4740016617574891 (- 41)"
  "f64_of_decimal 215551 2 = Finite False 4740016617574892 (- 41)"
  "shown_hundredths (Finite False 4740016617574891 (- 41)) = Some 215551"
  by code_simp+

lemma pizza_order_lines:
  "List.map_filter (line_item menuItems pizza_order) [''Pizza'', ''Burger''] =
     [(f64_of_decimal 82917 2, f64_of_int 2), (f64_of_decimal 49717 2, f64_of_int 1)]"
  "List.map_filter (line_item menuItems pizza_order) [''Burger'', ''Pizza''] =
     [(f64_of_decimal 49717 2, f64_of_int 1), (f64_of_decimal 82917 2, f64_of_int 2)]"
  by (simp_all add: line_item_def menu_lookup [unfolded FindOne_def] pizza_order_def)

lemma trio_lines:
  "List.map_filter (line_item menuItems trio) [''Pizza'', ''Burger'', ''Pasta''] =
     [(f64_of_decimal 82917 2, f64_of_int 1), (f64_of_decimal 49717 2, f64_of_int 1),
      (f64_of_decimal 66317 2, f64_of_int 1)]"
  "List.map_filter (line_item menuItems trio) [''Pasta'', ''Pizza'', ''Burger''] =
     [(f64_of_decimal 66317 2, f64_of_int 1), (f64_of_decimal 82917 2, f64_of_int 1),
      (f64_of_decimal 49717 2, f64_of_int 1)]"
  by (simp_all add: line_item_def menu_lookup [unfolded FindOne_def] trio_def)

lemma single_lines:
  "List.map_filter (line_item menuItems [''Burger'']) [''Burger''] =
     [(f64_of_decimal 49717 2, f64_of_int 1)]"
  "List.map_filter (line_item menuItems [''Pizza'']) [''Pizza''] =
     [(f64_of_decimal 82917 2, f64_of_int 1)]"
  by (simp_all add: line_item_def menu_lookup [unfolded FindOne_def])

lemma pizza_order_totals:
  "f64_total fused [(f64_of_decimal 82917 2, f64_of_int 2), (f64_of_decimal 49717 2, f64_of_int 1)] =
     Finite False 4740016617574891 (- 41)"
  "f64_total fused [(f64_of_decimal 49717 2, f64_of_int 1), (f64_of_decimal 82917 2, f64_of_int 2)] =
     Finite False 4740016617574891 (- 41)"
  by (cases fused; simp add: f64_total_def products from_zero next_sums fused_next_sums
        del: f64_add.simps f64_mul.simps f64_fma.simps)+

lemma trio_totals:
  "f64_total fused [(f64_of_decimal 82917 2, f64_of_int 1), (f64_of_decimal 49717 2, f64_of_int 1),
                    (f64_of_decimal 66317 2, f64_of_int 1)] =
     Finite False 8749957514306518 (- 42)"
  "f64_total fused [(f64_of_decimal 66317 2, f64_of_int 1), (f64_of_decimal 82917 2, f64_of_int 1),
                    (f64_of_decimal 49717 2, f64_of_int 1)] =
     Finite False 8749957514306519 (- 42)"
  by (cases fused; simp add: f64_total_def products from_zero next_sums fused_next_sums
        del: f64_add.simps f64_mul.simps f64_fma.simps)+

lemma single_totals:
  "f64_total fused [(f64_of_decimal 49717 2, f64_of_int 1)] = Finite False 8746307135702303 (- 44)"
  "f64_total fused [(f64_of_decimal 82917 2, f64_of_int 1)] = Finite False 7293456451224207 (- 43)"
  by (cases fused; simp add: f64_total_def products from_zero
        del: f64_add.simps f64_mul.simps f64_fma.simps)+

text \<open>
  Claim C1, as amended. Let \<open>C\<close> be a customer record of the store that is the first one
  of its name, and let the second loop visit the keys of the map of counts in the order
  \<open>ks\<close>. Then \<open>ks\<close> lists each different item name of the ordered items of \<open>C\<close>
  once, and \<open>CalculateAndStoreTotal\<close> puts in the place of the total of \<open>C\<close> the sum
  over the names of \<open>ks\<close> of the price of the name in the menu at that time, times the
  number of occurrences of the name in the ordered items; a name with no menu record adds
  nothing to the sum. Nothing else in the store changes: the records before \<open>C\<close> and
  those after it, a later record of the same name among them, are as they were. Sum and
  products are those of \<^verbatim>\<open>float64\<close>, taken in the order of the visit, the product rounded
  before it is added or, in a build that fuses the two, rounded with the sum.
\<close>

theorem CalculateAndStoreTotal_sum:
  assumes "customers s = pre @ C # post" and "Customer.Name C \<notin> Customer.Name ` set pre"
    and "range_order (countItems (OrderedItems C) Map.empty) ks"
  shows "distinct ks \<and> set ks = set (OrderedItems C) \<and>
     CalculateAndStoreTotal fused ks (Customer.Name C) s =
     (s\<lparr>customers :=
          pre @ C\<lparr>TotalAmount :=
                    f64_total fused (List.map_filter (line_item (menu s) (OrderedItems C)) ks)\<rparr> # post\<rparr>,
      [ThankYou (Customer.Name C)])"
  using assms(3) CalculateAndStoreTotal_first [OF assms(1,2)]
  by (simp add: range_order_countItems)

theorem CalculateAndStoreTotal_sum_witness:
  "customers pizza_store = [] @ ana # [bob] \<and>
   Customer.Name ana \<notin> Customer.Name ` set [] \<and>
   range_order (countItems (OrderedItems ana) Map.empty) [''Burger'', ''Pizza''] \<and>
   CalculateAndStoreTotal False [''Burger'', ''Pizza''] ''Ana'' pizza_store =
     (pizza_store\<lparr>customers := [ana\<lparr>TotalAmount := Finite False 4740016617574891 (- 41)\<rparr>, bob]\<rparr>,
      [ThankYou ''Ana''])"
proof -
  have h1: "customers pizza_store = [] @ ana # [bob]"
    by (simp add: pizza_store_def)
  have h2: "Customer.Name ana \<notin> Customer.Name ` set []"
    by simp
  have h3: "range_order (countItems (OrderedItems ana) Map.empty) [''Burger'', ''Pizza'']"
    unfolding range_order_countItems by (auto simp: ana_def pizza_order_def)
  have items: "OrderedItems ana = pizza_order" and name: "Customer.Name ana = ''Ana''"
    by (simp_all add: ana_def)
  have m: "menu pizza_store = menuItems"
    by (simp add: pizza_store_def)
  show ?thesis
    using h1 h2 h3 CalculateAndStoreTotal_sum [OF h1 h2 h3, of False]
    by (simp add: items name m pizza_order_lines pizza_order_totals del: List.map_filter_simps)
qed

text \<open>
  The claim C1 as it is written, for every customer record of the store, fails where two
  records have the same name: nothing keeps a name from being registered twice, and the
  lookup and the update by name reach the first record only. In the store with two
  records named Ana, the call with the name of the later record (which has a pizza, so
  that the sum of the claim is 829.17) visits the one key of the first record, writes
  497.17 in the first record, and leaves the later record with its total of zero,
  whether the build fuses or not.
\<close>

theorem CalculateAndStoreTotal_sum_counterexample:
  "ana_later \<in> set (customers twin_store) \<and>
   range_order (countItems (OrderedItems ana_first) Map.empty) [''Burger''] \<and>
   customers (fst (CalculateAndStoreTotal False [''Burger''] (Customer.Name ana_later) twin_store)) =
     [ana_first\<lparr>TotalAmount := Finite False 8746307135702303 (- 44)\<rparr>, ana_later] \<and>
   customers (fst (CalculateAndStoreTotal True [''Burger''] (Customer.Name ana_later) twin_store)) =
     [ana_first\<lparr>TotalAmount := Finite False 8746307135702303 (- 44)\<rparr>, ana_later] \<and>
   f64_total False (List.map_filter (line_item (menu twin_store) (OrderedItems ana_later)) [''Pizza'']) =
     Finite False 7293456451224207 (- 43) \<and>
   f64_total True (List.map_filter (line_item (menu twin_store) (OrderedItems ana_later)) [''Pizza'']) =
     Finite False 7293456451224207 (- 43) \<and>
   TotalAmount ana_later = Finite False 0 (- 1074)"
proof -
  have o: "range_order (countItems (OrderedItems ana_first) Map.empty) [''Burger'']"
    unfolding range_order_countItems by (simp add: ana_first_def)
  have call: "CalculateAndStoreTotal fused [''Burger''] (Customer.Name ana_first) twin_store =
     (twin_store\<lparr>customers := [] @ ana_first\<lparr>TotalAmount :=
          f64_total fused (List.map_filter (line_item (menu twin_store) (OrderedItems ana_first))
                             [''Burger''])\<rparr> # [ana_later]\<rparr>,
      [ThankYou (Customer.Name ana_first)])" for fused
    by (rule CalculateAndStoreTotal_first) (simp_all add: twin_store_def)
  have written: "customers (fst (CalculateAndStoreTotal fused [''Burger''] (Customer.Name ana_later)
                    twin_store)) =
     [ana_first\<lparr>TotalAmount := Finite False 8746307135702303 (- 44)\<rparr>, ana_later]" for fused
    using call [of fused]
    by (simp add: ana_first_def ana_later_def twin_store_def single_lines single_totals
          del: List.map_filter_simps)
  have claimed: "f64_total fused
       (List.map_filter (line_item (menu twin_store) (OrderedItems ana_later)) [''Pizza'']) =
     Finite False 7293456451224207 (- 43)" for fused
    by (simp add: ana_later_def twin_store_def single_lines single_totals
          del: List.map_filter_simps)
  show ?thesis
    using o written claimed by (simp add: twin_store_def) (simp add: ana_later_def f64_zero_def)
qed

text \<open>
  Claim C5, as amended. Let \<open>C\<close> be a customer record of the store that is the first one
  of its name and has no ordered items. Then the map of counts has no key to visit, and
  \<open>CalculateAndStoreTotal\<close> sets the total of \<open>C\<close> to zero (the \<^verbatim>\<open>float64\<close> \<open>+0\<close>) and
  changes nothing else in the store.
\<close>

theorem CalculateAndStoreTotal_no_orders:
  assumes "customers s = pre @ C # post" and "Customer.Name C \<notin> Customer.Name ` set pre"
    and "OrderedItems C = []"
    and "range_order (countItems (OrderedItems C) Map.empty) ks"
  shows "CalculateAndStoreTotal fused ks (Customer.Name C) s =
     (s\<lparr>customers := pre @ C\<lparr>TotalAmount := f64_zero\<rparr> # post\<rparr>, [ThankYou (Customer.Name C)])"
proof -
  from assms(4) have "set ks = set (OrderedItems C)"
    by (simp only: range_order_countItems)
  with assms(3) have "ks = []"
    by simp
  then show ?thesis
    using CalculateAndStoreTotal_first [OF assms(1,2), of fused ks] by (simp add: f64_total_def)
qed

theorem CalculateAndStoreTotal_no_orders_witness:
  "customers pizza_store = [ana] @ bob # [] \<and>
   Customer.Name bob \<notin> Customer.Name ` set [ana] \<and>
   OrderedItems bob = [] \<and>
   range_order (countItems (OrderedItems bob) Map.empty) [] \<and>
   CalculateAndStoreTotal True [] ''Bob'' pizza_store =
     (pizza_store\<lparr>customers := [ana, bob\<lparr>TotalAmount := Finite False 0 (- 1074)\<rparr>]\<rparr>,
      [ThankYou ''Bob''])"
proof -
  have h1: "customers pizza_store = [ana] @ bob # []"
    by (simp add: pizza_store_def)
  have h2: "Customer.Name bob \<notin> Customer.Name ` set [ana]"
    by (simp add: ana_def bob_def)
  have h3: "OrderedItems bob = []"
    by (simp add: bob_def)
  have h4: "range_order (countItems (OrderedItems bob) Map.empty) []"
    by (simp add: h3 range_order_def)
  have name: "Customer.Name bob = ''Bob''"
    by (simp add: bob_def)
  show ?thesis
    using h1 h2 h3 h4 CalculateAndStoreTotal_no_orders [OF h1 h2 h3 h4, of True]
    by (simp add: name f64_zero_def)
qed

text \<open>
  The claim C5 as it is written, for every customer record of the store with no ordered
  items, fails where an earlier record has the same name. In the store with two records
  named Ana, the later one with no ordered items and a total of 829.17, the call with its
  name writes the first record, and the later record keeps its total, which is not zero,
  whether the build fuses or not.
\<close>

theorem CalculateAndStoreTotal_no_orders_counterexample:
  "ana_idle \<in> set (customers idle_store) \<and>
   OrderedItems ana_idle = [] \<and>
   range_order (countItems (OrderedItems ana_first) Map.empty) [''Burger''] \<and>
   customers (fst (CalculateAndStoreTotal False [''Burger''] (Customer.Name ana_idle) idle_store)) =
     [ana_first\<lparr>TotalAmount := Finite False 8746307135702303 (- 44)\<rparr>, ana_idle] \<and>
   customers (fst (CalculateAndStoreTotal True [''Burger''] (Customer.Name ana_idle) idle_store)) =
     [ana_first\<lparr>TotalAmount := Finite False 8746307135702303 (- 44)\<rparr>, ana_idle] \<and>
   TotalAmount ana_idle = Finite False 7293456451224207 (- 43)"
proof -
  have o: "range_order (countItems (OrderedItems ana_first) Map.empty) [''Burger'']"
    unfolding range_order_countItems by (simp add: ana_first_def)
  have call: "CalculateAndStoreTotal fused [''Burger''] (Customer.Name ana_first) idle_store =
     (idle_store\<lparr>customers := [] @ ana_first\<lparr>TotalAmount :=
          f64_total fused (List.map_filter (line_item (menu idle_store) (OrderedItems ana_first))
                             [''Burger''])\<rparr> # [ana_idle]\<rparr>,
      [ThankYou (Customer.Name ana_first)])" for fused
    by (rule CalculateAndStoreTotal_first) (simp_all add: idle_store_def)
  have written: "customers (fst (CalculateAndStoreTotal fused [''Burger''] (Customer.Name ana_idle)
                    idle_store)) =
     [ana_first\<lparr>TotalAmount := Finite False 8746307135702303 (- 44)\<rparr>, ana_idle]" for fused
    using call [of fused]
    by (simp add: ana_first_def ana_idle_def idle_store_def single_lines single_totals
          del: List.map_filter_simps)
  have stale: "TotalAmount ana_idle = Finite False 7293456451224207 (- 43)"
    by (simp add: ana_idle_def f64_examples)
  show ?thesis
    using o written stale by (simp add: idle_store_def) (simp add: ana_idle_def)
qed

text \<open>
  Claim C2, as amended. When the second of two consecutive calls of
  \<open>CalculateAndStoreTotal\<close> for a name visits the item names in the same order \<open>ks\<close> as
  the first, it returns the store that the first call returned, with the same total
  stored, and prints the same line.
\<close>

theorem CalculateAndStoreTotal_same_order_twice:
  "CalculateAndStoreTotal fused ks customerName
     (fst (CalculateAndStoreTotal fused ks customerName s)) =
   CalculateAndStoreTotal fused ks customerName s"
proof (cases "customerName \<in> Customer.Name ` set (customers s)")
  case False
  then have "FindOne Customer.Name (customers s) customerName = None"
    by (simp add: FindOne_None_iff)
  then show ?thesis by (simp add: CalculateAndStoreTotal_def)
next
  case True
  from first_match [OF this] obtain pre c post
    where split: "customers s = pre @ c # post" "Customer.Name c = customerName"
      "customerName \<notin> Customer.Name ` set pre" by blast
  define T where "T = f64_total fused (List.map_filter (line_item (menu s) (OrderedItems c)) ks)"
  define s' where "s' = s\<lparr>customers := pre @ c\<lparr>TotalAmount := T\<rparr> # post\<rparr>"
  have one: "CalculateAndStoreTotal fused ks customerName s = (s', [ThankYou customerName])"
    using CalculateAndStoreTotal_first [of s pre c post fused ks] split by (simp add: s'_def T_def)
  have "CalculateAndStoreTotal fused ks (Customer.Name (c\<lparr>TotalAmount := T\<rparr>)) s' =
      (s'\<lparr>customers := pre @ (c\<lparr>TotalAmount := T\<rparr>)\<lparr>TotalAmount :=
          f64_total fused (List.map_filter
                     (line_item (menu s') (OrderedItems (c\<lparr>TotalAmount := T\<rparr>))) ks)\<rparr> # post\<rparr>,
       [ThankYou (Customer.Name (c\<lparr>TotalAmount := T\<rparr>))])"
    by (rule CalculateAndStoreTotal_first) (use split in \<open>simp_all add: s'_def\<close>)
  then have two: "CalculateAndStoreTotal fused ks customerName s' = (s', [ThankYou customerName])"
    using split by (simp add: s'_def T_def)
  from one two show ?thesis by simp
qed

text \<open>
  The claim C2 as it is written fails: the order of the visit is not the same from one
  call to the next, and the \<^verbatim>\<open>float64\<close> sum depends on it. For the customer who ordered a
  pizza, a burger and a pasta, a first call that visits the names in this order stores
  1989.5099999999998, and a second call that visits pasta, pizza, burger stores 1989.51:
  the second call changes the store, whether the build fuses or not.
\<close>

theorem CalculateAndStoreTotal_twice_counterexample:
  "range_order (countItems trio Map.empty) [''Pizza'', ''Burger'', ''Pasta''] \<and>
   range_order (countItems trio Map.empty) [''Pasta'', ''Pizza'', ''Burger''] \<and>
   map TotalAmount
     (customers (fst (CalculateAndStoreTotal False [''Pizza'', ''Burger'', ''Pasta''] ''Ana'' trio_store))) =
     [Finite False 8749957514306518 (- 42)] \<and>
   map TotalAmount
     (customers (fst (CalculateAndStoreTotal False [''Pasta'', ''Pizza'', ''Burger''] ''Ana''
        (fst (CalculateAndStoreTotal False [''Pizza'', ''Burger'', ''Pasta''] ''Ana'' trio_store))))) =
     [Finite False 8749957514306519 (- 42)] \<and>
   fst (CalculateAndStoreTotal False [''Pasta'', ''Pizza'', ''Burger''] ''Ana''
        (fst (CalculateAndStoreTotal False [''Pizza'', ''Burger'', ''Pasta''] ''Ana'' trio_store))) \<noteq>
     fst (CalculateAndStoreTotal False [''Pizza'', ''Burger'', ''Pasta''] ''Ana'' trio_store) \<and>
   map TotalAmount
     (customers (fst (CalculateAndStoreTotal True [''Pizza'', ''Burger'', ''Pasta''] ''Ana'' trio_store))) =
     [Finite False 8749957514306518 (- 42)] \<and>
   map TotalAmount
     (customers (fst (CalculateAndStoreTotal True [''Pasta'', ''Pizza'', ''Burger''] ''Ana''
        (fst (CalculateAndStoreTotal True [''Pizza'', ''Burger'', ''Pasta''] ''Ana'' trio_store))))) =
     [Finite False 8749957514306519 (- 42)] \<and>
   fst (CalculateAndStoreTotal True [''Pasta'', ''Pizza'', ''Burger''] ''Ana''
        (fst (CalculateAndStoreTotal True [''Pizza'', ''Burger'', ''Pasta''] ''Ana'' trio_store))) \<noteq>
     fst (CalculateAndStoreTotal True [''Pizza'', ''Burger'', ''Pasta''] ''Ana'' trio_store)"
proof -
  define C where "C = \<lparr>Customer.Name = ''Ana'', Phone = ''555'', OrderedItems = trio,
                       TotalAmount = f64_zero\<rparr>"
  define C' where "C' = C\<lparr>TotalAmount := Finite False 8749957514306518 (- 42)\<rparr>"
  have o1: "range_order (countItems trio Map.empty) [''Pizza'', ''Burger'', ''Pasta'']"
    unfolding range_order_countItems by (auto simp: trio_def)
  have o2: "range_order (countItems trio Map.empty) [''Pasta'', ''Pizza'', ''Burger'']"
    unfolding range_order_countItems by (auto simp: trio_def)
  have "CalculateAndStoreTotal fused [''Pizza'', ''Burger'', ''Pasta''] (Customer.Name C) trio_store =
     (trio_store\<lparr>customers := [] @ C\<lparr>TotalAmount :=
          f64_total fused (List.map_filter (line_item (menu trio_store) (OrderedItems C))
                     [''Pizza'', ''Burger'', ''Pasta''])\<rparr> # []\<rparr>,
      [ThankYou (Customer.Name C)])" for fused
    by (rule CalculateAndStoreTotal_first) (simp_all add: trio_store_def C_def)
  then have one: "fst (CalculateAndStoreTotal fused [''Pizza'', ''Burger'', ''Pasta''] ''Ana'' trio_store) =
      \<lparr>customers = [C'], menu = menuItems\<rparr>" for fused
    by (simp add: C_def C'_def trio_store_def trio_lines trio_totals del: List.map_filter_simps)
  have "CalculateAndStoreTotal fused [''Pasta'', ''Pizza'', ''Burger''] (Customer.Name C')
          \<lparr>customers = [C'], menu = menuItems\<rparr> =
     (\<lparr>customers = [C'], menu = menuItems\<rparr>\<lparr>customers := [] @ C'\<lparr>TotalAmount :=
          f64_total fused (List.map_filter
                     (line_item (menu \<lparr>customers = [C'], menu = menuItems\<rparr>) (OrderedItems C'))
                     [''Pasta'', ''Pizza'', ''Burger''])\<rparr> # []\<rparr>,
      [ThankYou (Customer.Name C')])" for fused
    by (rule CalculateAndStoreTotal_first) simp_all
  then have two: "fst (CalculateAndStoreTotal fused [''Pasta'', ''Pizza'', ''Burger''] ''Ana''
                         \<lparr>customers = [C'], menu = menuItems\<rparr>) =
      \<lparr>customers = [C'\<lparr>TotalAmount := Finite False 8749957514306519 (- 42)\<rparr>], menu = menuItems\<rparr>"
    for fused
    by (simp add: C_def C'_def trio_lines trio_totals del: List.map_filter_simps)
  show ?thesis
    using o1 o2 by (simp add: one two) (simp add: C'_def C_def)
qed

section \<open>The ordering loop\<close>

lemma lower_byte_cases:
  "\<forall>c. (lower_byte c = CHR ''d'' \<longleftrightarrow> c = CHR ''d'' \<or> c = CHR ''D'') \<and>
       (lower_byte c = CHR ''o'' \<longleftrightarrow> c = CHR ''o'' \<or> c = CHR ''O'') \<and>
       (lower_byte c = CHR ''n'' \<longleftrightarrow> c = CHR ''n'' \<or> c = CHR ''N'') \<and>
       (lower_byte c = CHR ''e'' \<longleftrightarrow> c = CHR ''e'' \<or> c = CHR ''E'')"
  by code_simp

text \<open>The test of the loop, \<^verbatim>\<open>strings.ToLower(itemName) == "done"\<close>, is the test for the sentinel.\<close>

lemma ToLower_done_iff: "ToLower t = ''done'' \<longleftrightarrow> is_sentinel t"
proof -
  have "ToLower t = ''done'' \<longleftrightarrow>
        (\<exists>a b c d. t = [a, b, c, d] \<and> lower_byte a = CHR ''d'' \<and> lower_byte b = CHR ''o'' \<and>
           lower_byte c = CHR ''n'' \<and> lower_byte d = CHR ''e'')"
    by (auto simp: ToLower_def map_eq_Cons_conv)
  also have "\<dots> \<longleftrightarrow> is_sentinel t"
    using lower_byte_cases by (auto simp: is_sentinel_def split: list.splits)
  finally show ?thesis .
qed

text \<open>What \<open>ShowMenu\<close> prints is the display of the menu.\<close>

lemma menu_cursor_map:
  "menu_cursor ms = map (\<lambda>menuItem. MenuLine (MenuItem.Name menuItem) (Price menuItem)) ms"
  by (induction ms) simp_all

lemma ShowMenu_display: "ShowMenu s = menu_display s"
  by (simp add: ShowMenu_def menu_display_def menu_cursor_map)

text \<open>One turn of the loop.\<close>

lemma PlaceOrder_loop_step:
  "PlaceOrder_loop customerName (s, inp, out) =
     (if is_sentinel (TrimSpace (fst (ReadString inp)))
      then Some (s, snd (ReadString inp), out @ ShowMenu s @ [Prompt])
      else PlaceOrder_loop customerName
             (fst (OrderItem customerName (TrimSpace (fst (ReadString inp))) s), snd (ReadString inp),
              out @ ShowMenu s @ [Prompt] @
                snd (OrderItem customerName (TrimSpace (fst (ReadString inp))) s)))"
  by (subst PlaceOrder_loop.simps) (simp add: split_beta Let_def ToLower_done_iff)

lemma PlaceOrder_step:
  "PlaceOrder fused ks customerName (s, inp, out) =
     (if is_sentinel (TrimSpace (fst (ReadString inp)))
      then Some (fst (CalculateAndStoreTotal fused ks customerName s), snd (ReadString inp),
                 out @ ShowMenu s @ [Prompt] @ snd (CalculateAndStoreTotal fused ks customerName s))
      else PlaceOrder fused ks customerName
             (fst (OrderItem customerName (TrimSpace (fst (ReadString inp))) s), snd (ReadString inp),
              out @ ShowMenu s @ [Prompt] @
                snd (OrderItem customerName (TrimSpace (fst (ReadString inp))) s)))"
proof (cases "is_sentinel (TrimSpace (fst (ReadString inp)))")
  case True
  then have "PlaceOrder_loop customerName (s, inp, out) =
      Some (s, snd (ReadString inp), out @ ShowMenu s @ [Prompt])"
    by (subst PlaceOrder_loop_step) simp
  with True show ?thesis
    by (simp add: PlaceOrder_def split_beta)
next
  case False
  then have "PlaceOrder_loop customerName (s, inp, out) =
      PlaceOrder_loop customerName
        (fst (OrderItem customerName (TrimSpace (fst (ReadString inp))) s), snd (ReadString inp),
         out @ ShowMenu s @ [Prompt] @
           snd (OrderItem customerName (TrimSpace (fst (ReadString inp))) s))"
    by (subst PlaceOrder_loop_step) simp
  with False show ?thesis
    by (simp add: PlaceOrder_def)
qed

lemma ReadString_line:
  assumes "CHR 0x0A \<notin> set l"
  shows "ReadString (l @ CHR 0x0A # rest) = (l @ [CHR 0x0A], rest)"
proof -
  from assms have ne: "\<And>x. x \<in> set l \<Longrightarrow> x \<noteq> CHR 0x0A"
    by auto
  have "dropWhile (\<lambda>c. c \<noteq> CHR 0x0A) (l @ CHR 0x0A # rest) = CHR 0x0A # rest"
    using ne by (simp add: dropWhile_append2)
  moreover have "takeWhile (\<lambda>c. c \<noteq> CHR 0x0A) (l @ CHR 0x0A # rest) = l"
    using ne by (simp add: takeWhile_append2)
  ultimately show ?thesis
    by (simp add: ReadString_def)
qed

lemma ReadString_last:
  assumes "CHR 0x0A \<notin> set l"
  shows "ReadString l = (l, [])"
proof -
  from assms have d: "dropWhile (\<lambda>c. c \<noteq> CHR 0x0A) l = []"
    by (auto simp: dropWhile_eq_Nil_conv)
  show ?thesis
    unfolding ReadString_def d by simp
qed

text \<open>
  A whole run: when the lines \<open>ls\<close> are typed, none of them the sentinel, and then a
  line that is the sentinel, \<open>PlaceOrder\<close> returns; each trimmed line was passed to
  \<open>OrderItem\<close>, in the order of the input, and then the total was computed.
\<close>

lemma PlaceOrder_run:
  assumes "\<forall>l \<in> set ls. CHR 0x0A \<notin> set l \<and> \<not> is_sentinel (TrimSpace (l @ [CHR 0x0A]))"
    and "CHR 0x0A \<notin> set d" and "is_sentinel (TrimSpace (d @ [CHR 0x0A]))"
  shows "map_option fst (PlaceOrder fused ks n (s, typed_lines (ls @ [d]) @ rest, out)) =
         Some (fst (CalculateAndStoreTotal fused ks n
                 (foldl (\<lambda>s l. fst (OrderItem n (TrimSpace (l @ [CHR 0x0A])) s)) s ls)))"
  using assms(1)
proof (induction ls arbitrary: s out)
  case Nil
  have "ReadString (typed_lines [d] @ rest) = (d @ [CHR 0x0A], rest)"
    using ReadString_line [OF assms(2)] by (simp add: typed_lines_def)
  with assms(3) show ?case
    by (subst PlaceOrder_step) simp
next
  case (Cons l ls)
  then have l: "CHR 0x0A \<notin> set l" "\<not> is_sentinel (TrimSpace (l @ [CHR 0x0A]))"
    and rest: "\<forall>l \<in> set ls. CHR 0x0A \<notin> set l \<and> \<not> is_sentinel (TrimSpace (l @ [CHR 0x0A]))"
    by simp_all
  have "ReadString (typed_lines ((l # ls) @ [d]) @ rest) =
          (l @ [CHR 0x0A], typed_lines (ls @ [d]) @ rest)"
    using ReadString_line [OF l(1)] by (simp add: typed_lines_def)
  with l(2) show ?case
    by (subst PlaceOrder_step) (simp add: Cons.IH [OF rest])
qed

text \<open>
  At the end of the input the loop does not return: the line read is empty, it is not
  the sentinel, and the next turn starts at the end of the input again.
\<close>

lemma empty_line: "ReadString [] = ([], [])" "TrimSpace [] = []" "ToLower [] \<noteq> ''done''"
  by (simp_all add: ReadString_def TrimSpace_def leading_space_def trailing_space_def
        space_runes_def ToLower_def)

lemma PlaceOrder_loop_end_of_input: "PlaceOrder_loop n (s, [], out) = None"
proof -
  have returns: "fst (snd st) \<noteq> []" if run: "PlaceOrder_loop n st = Some r" for st r
  proof (rule PlaceOrder_loop.raw_induct [where P = "\<lambda>n st r. fst (snd st) \<noteq> []", OF _ run])
    fix PlaceOrder_loop' n st r
    assume IH: "\<And>n st r. PlaceOrder_loop' n st = Some r \<Longrightarrow> fst (snd st) \<noteq> []"
      and body: "(case st of
          (s, inp, out) \<Rightarrow>
            case ReadString inp of
            (line, rest) \<Rightarrow>
              let shown = out @ ShowMenu s @ [Prompt]; itemName = TrimSpace line
              in if ToLower itemName = ''done''
                 then Some (s, rest, shown)
                 else case OrderItem n itemName s of
                      (s', evs) \<Rightarrow> PlaceOrder_loop' n (s', rest, shown @ evs)) = Some r"
    show "fst (snd st) \<noteq> []"
    proof
      assume e: "fst (snd st) = []"
      obtain s out where st: "st = (s, [], out)"
        using e by (cases st) auto
      from body [unfolded st]
      have "PlaceOrder_loop' n (fst (OrderItem n [] s), [],
              (out @ ShowMenu s @ [Prompt]) @ snd (OrderItem n [] s)) = Some r"
        by (simp add: empty_line split_beta Let_def)
      from IH [OF this] show False by simp
    qed
  qed
  show ?thesis
  proof (cases "PlaceOrder_loop n (s, [], out)")
    case None
    then show ?thesis .
  next
    case (Some r)
    from returns [OF this] show ?thesis by simp
  qed
qed

lemma PlaceOrder_end_of_input: "PlaceOrder fused ks n (s, [], out) = None"
  by (simp add: PlaceOrder_def PlaceOrder_loop_end_of_input)

text \<open>The reads of the loop give the lines of the input.\<close>

lemma lines_from_line:
  "CHR 0x0A \<notin> set l \<Longrightarrow>
   lines_from line (l @ CHR 0x0A # rest) = (line @ l @ [CHR 0x0A]) # lines_from [] rest"
  by (induction l arbitrary: line) auto

lemma lines_from_last:
  "CHR 0x0A \<notin> set l \<Longrightarrow> lines_from line l = (if line @ l = [] then [] else [line @ l])"
  by (induction l arbitrary: line) auto

lemma read_lines_input_lines: "read_lines inp = input_lines inp"
proof (induction inp rule: read_lines.induct)
  case (1 inp)
  show ?case
  proof (cases "inp = []")
    case True
    then show ?thesis by (simp add: input_lines_def)
  next
    case False
    let ?l = "takeWhile (\<lambda>c. c \<noteq> CHR 0x0A) inp"
    let ?d = "dropWhile (\<lambda>c. c \<noteq> CHR 0x0A) inp"
    have l: "CHR 0x0A \<notin> set ?l"
      by (auto dest: set_takeWhileD)
    have inp: "inp = ?l @ ?d"
      by simp
    show ?thesis
    proof (cases ?d)
      case Nil
      then have n: "CHR 0x0A \<notin> set inp"
        by (auto simp: dropWhile_eq_Nil_conv)
      have "read_lines inp = [inp]"
        using False ReadString_last [OF n] by (subst read_lines.simps) simp
      moreover have "input_lines inp = [inp]"
        using False lines_from_last [OF n, of "[]"] by (simp add: input_lines_def)
      ultimately show ?thesis by simp
    next
      case (Cons c rest)
      have "c = CHR 0x0A"
        using Cons hd_dropWhile [of "\<lambda>c. c \<noteq> CHR 0x0A" inp] by auto
      with Cons inp have split: "inp = ?l @ CHR 0x0A # rest"
        by simp
      have r: "ReadString inp = (?l @ [CHR 0x0A], rest)"
        using ReadString_line [OF l, of rest] split by simp
      have "read_lines inp = (?l @ [CHR 0x0A]) # read_lines rest"
        using False r by (subst read_lines.simps) simp
      also have "read_lines rest = input_lines rest"
        by (rule "1.IH" [OF False r [symmetric]])
      also have "(?l @ [CHR 0x0A]) # input_lines rest = input_lines inp"
        using lines_from_line [OF l, of "[]" rest] split by (simp add: input_lines_def)
      finally show ?thesis .
    qed
  qed
qed

lemma PlaceOrder_read_lines:
  "map_option store_and_output (PlaceOrder fused ks customerName (s, inp, out)) =
     ordering_loop fused ks customerName (read_lines inp) (s, out)"
proof (induction inp arbitrary: s out rule: read_lines.induct)
  case (1 inp)
  show ?case
  proof (cases "inp = []")
    case True
    then show ?thesis
      by (simp add: PlaceOrder_end_of_input)
  next
    case False
    obtain line rest where r: "ReadString inp = (line, rest)"
      by (cases "ReadString inp")
    have lines: "read_lines inp = line # read_lines rest"
      using False r by (subst read_lines.simps) simp
    show ?thesis
    proof (cases "is_sentinel (TrimSpace line)")
      case True
      then show ?thesis
        by (subst PlaceOrder_step)
          (simp add: r lines store_and_output_def Let_def ShowMenu_display del: read_lines.simps)
    next
      case no: False
      have "map_option store_and_output
              (PlaceOrder fused ks customerName
                 (fst (OrderItem customerName (TrimSpace line) s), rest,
                  out @ ShowMenu s @ [Prompt] @ snd (OrderItem customerName (TrimSpace line) s))) =
            ordering_loop fused ks customerName (read_lines rest)
              (fst (OrderItem customerName (TrimSpace line) s),
               out @ ShowMenu s @ [Prompt] @ snd (OrderItem customerName (TrimSpace line) s))"
        by (rule "1.IH" [OF False r [symmetric]])
      with no show ?thesis
        by (subst PlaceOrder_step)
          (simp add: r lines Let_def ShowMenu_display del: read_lines.simps)
    qed
  qed
qed

text \<open>
  Claim C6. For every input, \<open>PlaceOrder\<close> does on the lines of the input what the
  ordering loop of the specification does, and leaves the same store and the same output.
  Each turn displays the menu, the header and a line with name and price for each menu
  record, before the prompt. It trims the line read: what goes on has no white space at
  its start or its end, and the line is that with white space only before and after it.
  When the trimmed line is \<^verbatim>\<open>done\<close> up to the case of its letters the loop is left and
  \<open>CalculateAndStoreTotal\<close> is called for the customer of the session; otherwise the
  trimmed line is passed to \<open>OrderItem\<close> and the loop repeats. \<open>PlaceOrder\<close> returns
  exactly when one of the lines is the sentinel.
\<close>

theorem PlaceOrder_lines:
  "map_option store_and_output (PlaceOrder fused ks customerName (s, inp, out)) =
     ordering_loop fused ks customerName (input_lines inp) (s, out) \<and>
   trims_to line (TrimSpace line)"
proof
  show "map_option store_and_output (PlaceOrder fused ks customerName (s, inp, out)) =
     ordering_loop fused ks customerName (input_lines inp) (s, out)"
    using PlaceOrder_read_lines [of fused ks customerName s inp out]
    by (simp only: read_lines_input_lines)
  show "trims_to line (TrimSpace line)"
    by (rule TrimSpace_trims_to)
qed

section \<open>A session from the empty store\<close>

lemma trimmed_lines:
  "TrimSpace ''Pizza\<newline>'' = ''Pizza''" "TrimSpace ''Burger\<newline>'' = ''Burger''"
  "TrimSpace ''done\<newline>'' = ''done''"
  by code_simp+

lemma seeded: "AddMenuItems empty_store = (\<lparr>customers = [], menu = menuItems\<rparr>, [MenuItemsAdded])"
  by (simp add: AddMenuItems_def empty_store_def foldl_InsertOne)

text \<open>
  The menu is seeded in the empty store, a customer is registered, and the lines
  \<^verbatim>\<open>Pizza\<close>, \<^verbatim>\<open>Pizza\<close>, \<^verbatim>\<open>Burger\<close>, \<^verbatim>\<open>done\<close> are typed: the run returns, and the store has
  the one customer with the three items and the sum of their lines as the total.
\<close>

lemma session_orders:
  "final_customers (session fused ks name phone (empty_store, typed_lines (pizza_order @ [''done'']))) =
     Some [\<lparr>Customer.Name = name, Phone = phone, OrderedItems = pizza_order,
            TotalAmount = f64_total fused (List.map_filter (line_item menuItems pizza_order) ks)\<rparr>]"
proof -
  define s2 where "s2 = \<lparr>customers = [\<lparr>Customer.Name = name, Phone = phone, OrderedItems = [],
                      TotalAmount = f64_zero\<rparr>], menu = menuItems\<rparr>"
  define C where "C = \<lparr>Customer.Name = name, Phone = phone, OrderedItems = pizza_order,
                      TotalAmount = f64_zero\<rparr>"
  define s3 where "s3 = \<lparr>customers = [C], menu = menuItems\<rparr>"
  have reg: "AddCustomer name phone \<lparr>customers = [], menu = menuItems\<rparr> = (s2, [CustomerAdded name])"
    by (simp add: AddCustomer_def InsertOne_def s2_def)
  have lines: "\<forall>l \<in> set pizza_order. CHR 0x0A \<notin> set l \<and> \<not> is_sentinel (TrimSpace (l @ [CHR 0x0A]))"
    by (simp add: pizza_order_def trimmed_lines is_sentinel_def)
  have d: "CHR 0x0A \<notin> set ''done''" "is_sentinel (TrimSpace (''done'' @ [CHR 0x0A]))"
    by (simp_all add: trimmed_lines is_sentinel_def)
  have orders: "foldl (\<lambda>s l. fst (OrderItem name (TrimSpace (l @ [CHR 0x0A])) s)) s2 pizza_order = s3"
    by (simp add: pizza_order_def trimmed_lines OrderItem_def menu_lookup s2_def s3_def C_def)
  have total: "CalculateAndStoreTotal fused ks (Customer.Name C) s3 =
     (s3\<lparr>customers := [] @ C\<lparr>TotalAmount :=
          f64_total fused (List.map_filter (line_item (menu s3) (OrderedItems C)) ks)\<rparr> # []\<rparr>,
      [ThankYou (Customer.Name C)])"
    by (rule CalculateAndStoreTotal_first) (simp_all add: s3_def)
  have "map_option fst (PlaceOrder fused ks name
               (s2, typed_lines (pizza_order @ [''done'']) @ [],
                [MenuItemsAdded] @ [CustomerAdded name] @ [Welcome])) =
             Some (fst (CalculateAndStoreTotal fused ks name s3))"
    using PlaceOrder_run [OF lines d, of fused ks name s2 "[]"] by (simp only: orders)
  then obtain rest out where
    "PlaceOrder fused ks name (s2, typed_lines (pizza_order @ [''done'']),
                         [MenuItemsAdded, CustomerAdded name, Welcome]) =
       Some (fst (CalculateAndStoreTotal fused ks name s3), rest, out)"
    by auto
  then show ?thesis
    using total by (simp add: final_customers_def session_def seeded reg C_def s3_def)
qed

text \<open>
  Claim C8, as amended. From the empty store, after the menu is seeded (pizza at 829.17,
  burger at 497.17), one customer registered, and \<^verbatim>\<open>Pizza\<close>, \<^verbatim>\<open>Pizza\<close>, \<^verbatim>\<open>Burger\<close> and
  \<^verbatim>\<open>done\<close> typed, the run returns, in either order of the visit of the two names and
  whether the build fuses or not; the customer's ordered items are pizza, pizza, burger,
  and the total stored is the \<^verbatim>\<open>float64\<close> result of \<open>829.17 * 2 + 497.17\<close>, which is
  \<open>4740016617574891 / 2\<^sup>4\<^sup>1\<close>, that is 2155.5099999999998: the \<^verbatim>\<open>float64\<close> next below the
  one of the literal \<^verbatim>\<open>2155.51\<close>, which is \<open>4740016617574892 / 2\<^sup>4\<^sup>1\<close>. With two decimals
  it shows as 2155.51.
\<close>

theorem session_total:
  "final_customers (session fused [''Pizza'', ''Burger''] name phone
      (empty_store, typed_lines [''Pizza'', ''Pizza'', ''Burger'', ''done''])) =
     Some [\<lparr>Customer.Name = name, Phone = phone, OrderedItems = [''Pizza'', ''Pizza'', ''Burger''],
            TotalAmount = Finite False 4740016617574891 (- 41)\<rparr>] \<and>
   final_customers (session fused [''Burger'', ''Pizza''] name phone
      (empty_store, typed_lines [''Pizza'', ''Pizza'', ''Burger'', ''done''])) =
     Some [\<lparr>Customer.Name = name, Phone = phone, OrderedItems = [''Pizza'', ''Pizza'', ''Burger''],
            TotalAmount = Finite False 4740016617574891 (- 41)\<rparr>] \<and>
   f64_add (f64_mul (f64_of_decimal 82917 2) (f64_of_int 2)) (f64_of_decimal 49717 2) =
     Finite False 4740016617574891 (- 41) \<and>
   f64_of_decimal 215551 2 = Finite False 4740016617574892 (- 41) \<and>
   shown_hundredths (Finite False 4740016617574891 (- 41)) = Some 215551"
  using session_orders [of fused "[''Pizza'', ''Burger'']" name phone]
    session_orders [of fused "[''Burger'', ''Pizza'']" name phone]
  by (simp add: pizza_order_lines pizza_order_totals pizza_order_literals del: List.map_filter_simps)
    (simp add: pizza_order_def)

text \<open>
  The claim C8 as it is written fails: the total stored is not the \<^verbatim>\<open>float64\<close> 2155.51,
  whichever of the two names is visited first and whether the build fuses or not.
\<close>

theorem session_total_counterexample:
  "final_customers (session False [''Pizza'', ''Burger''] ''Ana'' ''555''
      (empty_store, typed_lines [''Pizza'', ''Pizza'', ''Burger'', ''done''])) \<noteq>
     Some [\<lparr>Customer.Name = ''Ana'', Phone = ''555'',
            OrderedItems = [''Pizza'', ''Pizza'', ''Burger''],
            TotalAmount = f64_of_decimal 215551 2\<rparr>] \<and>
   final_customers (session False [''Burger'', ''Pizza''] ''Ana'' ''555''
      (empty_store, typed_lines [''Pizza'', ''Pizza'', ''Burger'', ''done''])) \<noteq>
     Some [\<lparr>Customer.Name = ''Ana'', Phone = ''555'',
            OrderedItems = [''Pizza'', ''Pizza'', ''Burger''],
            TotalAmount = f64_of_decimal 215551 2\<rparr>] \<and>
   final_customers (session True [''Pizza'', ''Burger''] ''Ana'' ''555''
      (empty_store, typed_lines [''Pizza'', ''Pizza'', ''Burger'', ''done''])) \<noteq>
     Some [\<lparr>Customer.Name = ''Ana'', Phone = ''555'',
            OrderedItems = [''Pizza'', ''Pizza'', ''Burger''],
            TotalAmount = f64_of_decimal 215551 2\<rparr>] \<and>
   final_customers (session True [''Burger'', ''Pizza''] ''Ana'' ''555''
      (empty_store, typed_lines [''Pizza'', ''Pizza'', ''Burger'', ''done''])) \<noteq>
     Some [\<lparr>Customer.Name = ''Ana'', Phone = ''555'',
            OrderedItems = [''Pizza'', ''Pizza'', ''Burger''],
            TotalAmount = f64_of_decimal 215551 2\<rparr>]"
  using session_orders [of False "[''Pizza'', ''Burger'']" "''Ana''" "''555''"]
    session_orders [of False "[''Burger'', ''Pizza'']" "''Ana''" "''555''"]
    session_orders [of True "[''Pizza'', ''Burger'']" "''Ana''" "''555''"]
    session_orders [of True "[''Burger'', ''Pizza'']" "''Ana''" "''555''"]
  by (simp add: pizza_order_lines pizza_order_totals pizza_order_literals del: List.map_filter_simps)
    (simp add: pizza_order_def)

end
